theory Spec2Isabelle
  imports Complex_Main "HOL-Library.Signed_Division" "HOL-Library.Sublist" "HOL-Library.Log_Nat"
    "HOL-Library.Code_Target_Numeral"
begin

section \<open>Results and machine integers\<close>

text \<open>
  A call of the class returns a value, or runs into behaviour the C++ standard leaves
  undefined (a null pointer dereferenced, a signed integer overflow, a conversion to an
  integer type that cannot hold the value, \<^verbatim>\<open>atoi\<close> out of range), or does not return.
\<close>

datatype 'a result = Returns 'a | Undefined | Diverges

definition bind_result :: "'a result \<Rightarrow> ('a \<Rightarrow> 'b result) \<Rightarrow> 'b result" where
  "bind_result r f = (case r of Returns x \<Rightarrow> f x | Undefined \<Rightarrow> Undefined | Diverges \<Rightarrow> Diverges)"

text \<open>
  \<open>Int_t\<close> is ROOT's name for the 32-bit signed \<^verbatim>\<open>int\<close>. The model computes in \<open>int\<close>;
  where the code computes with counts of events, chunks and jobs, the result goes through
  \<open>Int_t\<close>, which is undefined outside the range: a signed overflow, or the conversion of
  a floating-point value whose integer part does not fit. (The two loops that may go round
  for ever, in \<^verbatim>\<open>ReplaceVars\<close> and \<^verbatim>\<open>GetLastStage\<close>, count their rounds in an \<open>Int_t\<close> too; the
  model lets these counters grow and reports such a loop as not returning. The counters
  that count the entries of a list in memory or the lines of a file are taken to stay in
  the range.)
\<close>

definition Int_t_max :: int where
  "Int_t_max = 2147483647"

definition Int_t_min :: int where
  "Int_t_min = - 2147483648"

definition Int_t :: "int \<Rightarrow> int result" where
  "Int_t i = (if Int_t_min \<le> i \<and> i \<le> Int_t_max then Returns i else Undefined)"

section \<open>AliMuonAccEffSubmitter: chunk planning\<close>

text \<open>
  The loop of \<^verbatim>\<open>AliMuonAccEffSubmitter::Submit\<close> that plans the chunks of one run:
  \<^verbatim>\<open>
  Int_t nChunk = 1;
  while (nEvtRun/nChunk+0.5 > MaxEventsPerChunk())
  {
    ++nChunk;
  }
  \<close>
  \<open>nEvtRun\<close> and \<open>nChunk\<close> are \<open>Int_t\<close>, so \<open>nEvtRun/nChunk\<close> is the integer division
  of C++, which truncates towards zero (\<open>sdiv\<close>); adding \<open>0.5\<close> turns the quotient into a
  double, which holds a 32-bit integer plus one half exactly, so the comparison is the
  comparison of rationals. The division is undefined for the divisor 0 and for the least
  \<open>Int_t\<close> divided by \<open>-1\<close>; \<open>nChunk\<close> starts at 1 and only grows, so neither happens in
  \<^verbatim>\<open>Submit\<close>. \<^verbatim>\<open>++nChunk\<close> overflows when \<open>nChunk\<close> is the largest \<open>Int_t\<close>. The loop therefore
  always comes to an end: it returns, or it overflows.
\<close>

function nChunk_loop :: "int \<Rightarrow> int \<Rightarrow> int \<Rightarrow> int result" where
  "nChunk_loop nEvtRun maxEventsPerChunk nChunk =
     (if nChunk = 0 \<or> (nEvtRun = Int_t_min \<and> nChunk = - 1) then Undefined
      else if (of_int (nEvtRun sdiv nChunk) :: rat) + 1 / 2 > of_int maxEventsPerChunk
      then (if nChunk < Int_t_max
            then nChunk_loop nEvtRun maxEventsPerChunk (nChunk + 1)
            else Undefined)
      else Returns nChunk)"
  by pat_completeness auto
termination
  by (relation "measure (\<lambda>(nEvtRun, maxEventsPerChunk, nChunk). nat (Int_t_max - nChunk))") auto

declare nChunk_loop.simps [simp del]

section \<open>Library functions the class relies on\<close>

text \<open>
  The class is written against ROOT (\<^verbatim>\<open>TString\<close>, \<^verbatim>\<open>TMath\<close>, \<^verbatim>\<open>TSystem\<close>) and the C library.
  The functions below follow the behaviour ROOT documents for them; they are not code of
  the class. Strings are byte strings (\<open>string\<close>).
\<close>

text \<open>\<^verbatim>\<open>TString::BeginsWith\<close> and \<^verbatim>\<open>TString::Contains\<close> (exact case).\<close>

definition BeginsWith :: "string \<Rightarrow> string \<Rightarrow> bool" where
  "BeginsWith s pat = prefix pat s"

fun Contains :: "string \<Rightarrow> string \<Rightarrow> bool" where
  "Contains [] pat = (pat = [])"
| "Contains (c # cs) pat = (prefix pat (c # cs) \<or> Contains cs pat)"

text \<open>
  \<^verbatim>\<open>TString::ReplaceAll(s1, s2)\<close>: every occurrence of \<open>s1\<close>, from the left, is replaced
  by \<open>s2\<close>; the search goes on behind the text just inserted. An empty \<open>s1\<close> replaces
  nothing.
\<close>

function ReplaceAll :: "string \<Rightarrow> string \<Rightarrow> string \<Rightarrow> string" where
  "ReplaceAll s1 s2 s =
     (if s1 = [] \<or> s = [] then s
      else if prefix s1 s then s2 @ ReplaceAll s1 s2 (drop (length s1) s)
      else hd s # ReplaceAll s1 s2 (tl s))"
  by pat_completeness auto
termination
  by (relation "measure (\<lambda>(s1, s2, s). length s)") auto

declare ReplaceAll.simps [simp del]

text \<open>\<^verbatim>\<open>TString::Strip(kTrailing, c)\<close>; the default character is the blank.\<close>

definition Strip :: "char \<Rightarrow> string \<Rightarrow> string" where
  "Strip c s = rev (dropWhile (\<lambda>x. x = c) (rev s))"

text \<open>\<^verbatim>\<open>TString::ToUpper\<close>, \<^verbatim>\<open>TString::ToLower\<close> and the case-blind \<^verbatim>\<open>Contains\<close>.\<close>

definition toupper :: "char \<Rightarrow> char" where
  "toupper c = (case map_of (zip ''abcdefghijklmnopqrstuvwxyz'' ''ABCDEFGHIJKLMNOPQRSTUVWXYZ'') c of
                  Some u \<Rightarrow> u | None \<Rightarrow> c)"

definition tolower :: "char \<Rightarrow> char" where
  "tolower c = (case map_of (zip ''ABCDEFGHIJKLMNOPQRSTUVWXYZ'' ''abcdefghijklmnopqrstuvwxyz'') c of
                  Some l \<Rightarrow> l | None \<Rightarrow> c)"

definition ToUpper :: "string \<Rightarrow> string" where
  "ToUpper s = map toupper s"

definition ToLower :: "string \<Rightarrow> string" where
  "ToLower s = map tolower s"

definition ContainsIgnoreCase :: "string \<Rightarrow> string \<Rightarrow> bool" where
  "ContainsIgnoreCase s pat = Contains (ToLower s) (ToLower pat)"

text \<open>Decimal digits, and the \<^verbatim>\<open>%d\<close> conversion of \<^verbatim>\<open>Form\<close> and \<^verbatim>\<open>operator<<\<close>.\<close>

definition isdigit :: "char \<Rightarrow> bool" where
  "isdigit c = (c \<in> set ''0123456789'')"

definition digit_val :: "char \<Rightarrow> nat" where
  "digit_val c = (case map_of (zip ''0123456789'' [0, 1, 2, 3, 4, 5, 6, 7, 8, 9]) c of
                    Some d \<Rightarrow> d | None \<Rightarrow> 0)"

definition digit_char :: "nat \<Rightarrow> char" where
  "digit_char d = ''0123456789'' ! d"

function show_nat :: "nat \<Rightarrow> string" where
  "show_nat n = (if n < 10 then [digit_char n] else show_nat (n div 10) @ [digit_char (n mod 10)])"
  by pat_completeness auto
termination
  by (relation "measure id") auto

declare show_nat.simps [simp del]

definition show_int :: "int \<Rightarrow> string" where
  "show_int i = (if i < 0 then CHR ''-'' # show_nat (nat (- i)) else show_nat (nat i))"

text \<open>
  \<^verbatim>\<open>TString::IsDigit\<close>: true if all characters are digits or blanks, and not for the empty
  string or a string of blanks only (``123456'' and ``123 456'' are both valid integer
  strings). \<^verbatim>\<open>TString::IsDec\<close>: a non-empty string of decimal digits.
\<close>

definition IsDigit :: "string \<Rightarrow> bool" where
  "IsDigit s = ((\<forall>c \<in> set s. c = CHR '' '' \<or> isdigit c) \<and> (\<exists>c \<in> set s. isdigit c))"

definition IsDec :: "string \<Rightarrow> bool" where
  "IsDec s = (s \<noteq> [] \<and> (\<forall>c \<in> set s. isdigit c))"

text \<open>
  \<^verbatim>\<open>TString::Atoi\<close>: the blanks are taken out, then the C library's \<^verbatim>\<open>atoi\<close> reads an
  optional sign and the leading digits. A value outside \<open>Int_t\<close> is not defined by the C
  standard: \<open>None\<close>.
\<close>

definition digits_value :: "string \<Rightarrow> nat" where
  "digits_value ds = foldl (\<lambda>a c. 10 * a + digit_val c) 0 ds"

definition atoi :: "string \<Rightarrow> int option" where
  "atoi s =
     (let t = dropWhile (\<lambda>c. c \<in> set [CHR 0x09, CHR 0x0A, CHR 0x0B, CHR 0x0C, CHR 0x0D, CHR '' '']) s;
          neg = (t \<noteq> [] \<and> hd t = CHR ''-'');
          u = (if t \<noteq> [] \<and> (hd t = CHR ''-'' \<or> hd t = CHR ''+'') then tl t else t);
          v = int (digits_value (takeWhile isdigit u));
          r = (if neg then - v else v)
      in if - (2 ^ 31) \<le> r \<and> r < 2 ^ 31 then Some r else None)"

definition Atoi :: "string \<Rightarrow> int option" where
  "Atoi s = atoi (filter (\<lambda>c. c \<noteq> CHR '' '') s)"

text \<open>
  \<^verbatim>\<open>TMath::Nint\<close>: rounds to the nearest integer, and a half-integer to the nearest even
  integer. ROOT's code is
  \<^verbatim>\<open>
  template<typename T> inline Int_t TMath::Nint(T x)
  {
     int i;
     if (x >= 0) { i = int(x + 0.5); if ( i & 1 && x + 0.5 == T(i) ) i--; }
     else        { i = int(x - 0.5); if ( i & 1 && x - 0.5 == T(i) ) i++; }
     return i;
  }
  \<close>
  where \<open>int(\<dots>)\<close> truncates towards zero and is undefined when the truncated value is
  no \<open>Int_t\<close>. The class passes a double that is an integer plus one half, and a float;
  for both, \<open>x + 0.5\<close> is exact in double precision up to the range of \<open>Int_t\<close>, and
  \<open>T(i)\<close> is exact whenever \<open>x + 0.5\<close> is an integer, so the result is the one computed on
  rationals.
\<close>

definition Nint :: "rat \<Rightarrow> int result" where
  "Nint x =
     (if x \<ge> 0
      then bind_result (Int_t \<lfloor>x + 1 / 2\<rfloor>)
             (\<lambda>i. Returns (if odd i \<and> x + 1 / 2 = of_int i then i - 1 else i))
      else bind_result (Int_t \<lceil>x - 1 / 2\<rceil>)
             (\<lambda>i. Returns (if odd i \<and> x - 1 / 2 = of_int i then i + 1 else i)))"

text \<open>
  \<open>Float_t\<close> is the single-precision float: a sign, 24 significant bits and a power of
  two. A value that is not of this form is rounded to the nearest float, and to the one
  with an even last bit when it lies half-way between two floats. \<open>binade x\<close> is the
  exponent \<open>e\<close> with \<open>2\<^sup>e \<le> x < 2\<^sup>e\<^sup>+\<^sup>1\<close>, for \<open>x > 0\<close>; the last of the 24 bits then
  counts \<open>2\<^sup>e\<^sup>-\<^sup>2\<^sup>3\<close>. The model leaves out the limits of the exponent: a float too large
  is far outside \<open>Int_t\<close>, and one too small rounds to the integer 0 like its exact value.
  Infinities and NaN are not modelled.
\<close>

definition round_half_even :: "rat \<Rightarrow> int" where
  "round_half_even x = (let i = \<lfloor>x + 1 / 2\<rfloor> in if odd i \<and> x + 1 / 2 = of_int i then i - 1 else i)"

definition binade :: "rat \<Rightarrow> int" where
  "binade x = (if x \<ge> 1 then bitlen \<lfloor>x\<rfloor> - 1 else - bitlen (\<lceil>1 / x\<rceil> - 1))"

definition Float_t :: "rat \<Rightarrow> rat" where
  "Float_t x =
     (if x = 0 then 0
      else (let e = binade \<bar>x\<bar> - 23 in
            if e \<ge> 0 then of_int (round_half_even (x / 2 ^ nat e)) * 2 ^ nat e
            else of_int (round_half_even (x * 2 ^ nat (- e))) / 2 ^ nat (- e)))"

section \<open>The world around the submitter\<close>

text \<open>
  A \<^verbatim>\<open>TGridResult\<close> is a list of objects, normally \<^verbatim>\<open>TMap\<close>s from keys to objects; the
  value under a key is a \<^verbatim>\<open>TObjString\<close> or some other named object.
\<close>

datatype tobject = TObjString string | TNamed string

fun GetName :: "tobject \<Rightarrow> string" where
  "GetName (TObjString n) = n"
| "GetName (TNamed n) = n"

datatype gridentry = TMap "(string \<times> tobject) list" | NotATMap

text \<open>
  What the program does to the outside, in order: calls of the Grid client that change the
  remote side (with the reply of a command), shell commands that act on the remote side or
  start another program, and what is written to standard output: one \<open>Stdout\<close> with its
  text, line ends included, for each output statement (\<^verbatim>\<open>std::cout << \<dots>;\<close>, \<^verbatim>\<open>printf\<close>,
  \<^verbatim>\<open>cat\<close>), and the Grid client's own \<^verbatim>\<open>Stdout()\<close> and \<^verbatim>\<open>Stderr()\<close>. The diagnostics of
  \<^verbatim>\<open>AliLog\<close> (\<^verbatim>\<open>AliError\<close>, \<^verbatim>\<open>AliWarning\<close>, \<^verbatim>\<open>AliInfo\<close>, \<^verbatim>\<open>AliDebug\<close>) are left out, and so
  are the shell commands that only read (\<^verbatim>\<open>alien_ls\<close>, \<^verbatim>\<open>alien_find\<close>, \<^verbatim>\<open>grep\<close>) or only
  touch local files (\<^verbatim>\<open>rm\<close>, \<^verbatim>\<open>echo\<close>): their effect is in the files of the world.
\<close>

datatype action =
    GridCd string
  | GridMkdir string
  | GridRm string
  | GridCommand string "string option"
  | GridConnect
  | FileCp string string
  | Exec string
  | Stdout string
  | GridStdout
  | GridStderr

text \<open>\<^verbatim>\<open>std::endl\<close> and \<^verbatim>\<open>\n\<close>.\<close>

definition endl :: string where
  "endl = [CHR 0x0A]"

text \<open>
  The world: the local files (a file is its lines), whether the global Grid handle
  \<^verbatim>\<open>gGrid\<close> is set, the lines waiting on standard input, and the actions so far.
\<close>

record world =
  files :: "string \<rightharpoonup> string list"
  gGrid :: bool
  stdin :: "string list"
  actions :: "action list"

text \<open>
  \<^verbatim>\<open>AliAnalysisTriggerScalers\<close> (not part of the class): the run list and, for a run, a
  level and a trigger name, the scaler item's value, if there is such an item.
\<close>

record scalers =
  GetRunList :: "int list"
  GetTriggerScaler :: "int \<Rightarrow> string \<Rightarrow> string \<Rightarrow> nat option"

subsection \<open>The submitter object\<close>

text \<open>
  The data members of \<^verbatim>\<open>AliMuonAccEffSubmitter\<close>. A null pointer is \<open>None\<close>. \<open>fVars\<close> is
  a \<^verbatim>\<open>TMap\<close> with one entry per name, listed in the order its iterator visits them. The
  accessors of the class header (\<^verbatim>\<open>IsValid()\<close>, \<^verbatim>\<open>RemoteDir()\<close>, \<^verbatim>\<open>LocalDir()\<close>,
  \<^verbatim>\<open>SnapshotDir()\<close>, \<^verbatim>\<open>MaxEventsPerChunk()\<close>, \<^verbatim>\<open>ReferenceTrigger()\<close>, \<^verbatim>\<open>CompactMode()\<close>,
  \<^verbatim>\<open>ShouldOverwriteFiles()\<close>) are read as the member of the same name.
\<close>

record submitter =
  fScalers :: "scalers option"
  fRemoteDir :: string
  fReferenceTrigger :: string
  fRatio :: rat
  fFixedNofEvents :: int
  fMaxEventsPerChunk :: int
  fLocalDir :: string
  fOCDBPath :: string
  fTemplateDir :: string
  fPackageAliroot :: string
  fPackageGeant3 :: string
  fPackageRoot :: string
  fPackageApi :: string
  fMergedDir :: string
  fSplitMaxInputFileNumber :: int
  fCompactMode :: int
  fShouldOverwriteFiles :: bool
  fVars :: "(string \<times> string) list"
  fExternalConfig :: string
  fUseOCDBSnapshots :: bool
  fIsValid :: bool
  fTemplateFileList :: "string list option"
  fLocalFileList :: "string list option"
  fSnapshotDir :: string
  fUseAODMerging :: bool

text \<open>
  The collaborators the class calls and does not define. \<^verbatim>\<open>gSystem\<close> is ROOT's
  operating-system interface: \<open>resolve\<close> maps a path, as the program writes it, to the file
  it names. The replies of the Grid (\<open>Ls\<close>, \<open>Mkdir\<close>, \<open>Cp\<close>, \<open>Command\<close>, \<open>Connect\<close>,
  \<open>alien_ls\<close>, \<open>alien_find\<close>) may depend on everything done so far. \<open>Command\<close> replies
  with no result (\<open>None\<close>) or with the \<^verbatim>\<open>jobId\<close> key of the first entry (empty if there
  is none). \<open>simrun_snapshot\<close> is the effect on the local files of running
  \<^verbatim>\<open>aliroot -b -q -x simrun.C --run <run> --snapshot\<close>. \<open>ofstream_bad\<close> tells whether
  a stream just opened on a path is bad. \<open>RunJDLName\<close>, \<open>MergeJDLName\<close> and
  \<open>GetSplitMaxInputFileNumber\<close> are inline functions of the class header, which is not
  part of the sources given.
\<close>

record env =
  resolve :: "string \<Rightarrow> string"
  BaseName :: "string \<Rightarrow> string"
  DirName :: "string \<Rightarrow> string"
  ExpandPathName :: "string \<Rightarrow> string"
  IsAbsoluteFileName :: "string \<Rightarrow> bool"
  Ls :: "world \<Rightarrow> string \<Rightarrow> string \<Rightarrow> gridentry list option"
  Mkdir :: "world \<Rightarrow> string \<Rightarrow> bool"
  Cp :: "world \<Rightarrow> string \<Rightarrow> string \<Rightarrow> bool"
  Command :: "world \<Rightarrow> string \<Rightarrow> string option"
  Connect :: "world \<Rightarrow> bool"
  alien_ls :: "world \<Rightarrow> string \<Rightarrow> string list"
  alien_find :: "world \<Rightarrow> string \<Rightarrow> string list"
  simrun_snapshot :: "world \<Rightarrow> int \<Rightarrow> (string \<rightharpoonup> string list)"
  ofstream_bad :: "world \<Rightarrow> string \<Rightarrow> bool"
  RunJDLName :: string
  MergeJDLName :: "bool \<Rightarrow> string"
  GetSplitMaxInputFileNumber :: "submitter \<Rightarrow> string"

definition log :: "action \<Rightarrow> world \<Rightarrow> world" where
  "log a w = w\<lparr>actions := actions w @ [a]\<rparr>"

text \<open>
  \<^verbatim>\<open>gSystem->AccessPathName\<close> returns false when the path \<^emph>\<open>can\<close> be accessed.
  \<^verbatim>\<open>gSystem->CopyFile\<close> returns 0 on success, -2 when the target exists and may not be
  overwritten, -1 when the source cannot be read.
\<close>

definition AccessPathName :: "env \<Rightarrow> world \<Rightarrow> string \<Rightarrow> bool" where
  "AccessPathName e w path = (files w (resolve e path) = None)"

definition Unlink :: "env \<Rightarrow> string \<Rightarrow> world \<Rightarrow> world" where
  "Unlink e path w = w\<lparr>files := (files w)(resolve e path := None)\<rparr>"

definition write_file :: "env \<Rightarrow> string \<Rightarrow> string list \<Rightarrow> world \<Rightarrow> world" where
  "write_file e path content w = w\<lparr>files := (files w)(resolve e path \<mapsto> content)\<rparr>"

definition read_file :: "env \<Rightarrow> world \<Rightarrow> string \<Rightarrow> string list" where
  "read_file e w path = (case files w (resolve e path) of None \<Rightarrow> [] | Some content \<Rightarrow> content)"

definition CopyFile_gSystem :: "env \<Rightarrow> string \<Rightarrow> string \<Rightarrow> bool \<Rightarrow> world \<Rightarrow> int \<times> world" where
  "CopyFile_gSystem e f t overwrite w =
     (if \<not> AccessPathName e w t \<and> \<not> overwrite then (- 2, w)
      else (case files w (resolve e f) of
              None \<Rightarrow> (- 1, w)
            | Some content \<Rightarrow> (0, write_file e t content w)))"

text \<open>
  \<^verbatim>\<open>in.getline(line,1023,'\n')\<close> reads a line of at most 1022 characters; a longer line
  sets the fail bit, which ends the loop over the lines.
\<close>

definition getlines :: "string list \<Rightarrow> string list" where
  "getlines content = takeWhile (\<lambda>l. length l \<le> 1022) content"

section \<open>The operations of the class\<close>

subsection \<open>The file lists\<close>

text \<open>
  \<^verbatim>\<open>TemplateFileList()\<close> and \<^verbatim>\<open>LocalFileList()\<close> create their list on first use and keep
  it in a mutable member, so they return the object as well.
\<close>

definition TemplateFileList :: "env \<Rightarrow> submitter \<Rightarrow> string list \<times> submitter" where
  "TemplateFileList e s =
     (case fTemplateFileList s of
        Some l \<Rightarrow> (l, s)
      | None \<Rightarrow>
          (let l = [''CheckESD.C'', ''CheckAOD.C'', ''AODtrain.C'', ''validation.sh'']
                 @ [if length (fExternalConfig s) > 0 then fExternalConfig s else ''Config.C'']
                 @ [''rec.C'', ''sim.C'', ''simrun.C'', RunJDLName e]
                 @ (if fUseAODMerging s
                    then [MergeJDLName e False, MergeJDLName e True,
                          ''AOD_merge.sh'', ''validation_merge.sh'']
                    else [])
           in (l, s\<lparr>fTemplateFileList := Some l\<rparr>)))"

definition LocalFileList :: "env \<Rightarrow> submitter \<Rightarrow> string list \<times> submitter" where
  "LocalFileList e s =
     (case fLocalFileList s of
        Some l \<Rightarrow> (l, s)
      | None \<Rightarrow> (let (t, s') = TemplateFileList e s in (t, s'\<lparr>fLocalFileList := Some t\<rparr>)))"

subsection \<open>\<^verbatim>\<open>CleanLocal\<close>\<close>

text \<open>
  \<^verbatim>\<open>
  while ( ( file = static_cast<TObjString*>(next())) )
  {
    if ( !cleanSnapshots && file->String().Contains("OCDB_") ) continue;
    gSystem->Unlink(file->String().Data());
  }
  \<close>
\<close>

fun CleanLocal_loop :: "env \<Rightarrow> bool \<Rightarrow> string list \<Rightarrow> world \<Rightarrow> world" where
  "CleanLocal_loop e cleanSnapshots [] w = w"
| "CleanLocal_loop e cleanSnapshots (file # rest) w =
     (if \<not> cleanSnapshots \<and> Contains file ''OCDB_''
      then CleanLocal_loop e cleanSnapshots rest w
      else CleanLocal_loop e cleanSnapshots rest (Unlink e file w))"

definition CleanLocal :: "env \<Rightarrow> submitter \<Rightarrow> bool \<Rightarrow> world \<Rightarrow> world \<times> submitter" where
  "CleanLocal e s cleanSnapshots w =
     (let (lfl, s') = LocalFileList e s in (CleanLocal_loop e cleanSnapshots lfl w, s'))"

subsection \<open>\<^verbatim>\<open>RemoteDirectoryExists\<close> and \<^verbatim>\<open>RemoteFileExists\<close>\<close>

text \<open>
  The loop of \<^verbatim>\<open>RemoteDirectoryExists\<close> over the listing: it ends at the first entry
  that is not a \<^verbatim>\<open>TMap\<close>, breaks at the first entry without a \<open>name\<close>, and returns true at
  the first entry whose name is \<open>dir\<close>.
\<close>

fun name_listed :: "string \<Rightarrow> gridentry list \<Rightarrow> bool" where
  "name_listed dir [] = False"
| "name_listed dir (NotATMap # rest) = False"
| "name_listed dir (TMap m # rest) =
     (case map_of m ''name'' of
        None \<Rightarrow> False
      | Some obj \<Rightarrow> if dir = GetName obj then True else name_listed dir rest)"

definition RemoteDirectoryExists :: "env \<Rightarrow> world \<Rightarrow> string \<Rightarrow> bool" where
  "RemoteDirectoryExists e w dirname =
     (if \<not> gGrid w then False
      else (let dirstripped = Strip (CHR ''/'') (Strip (CHR '' '') dirname);
                dir = BaseName e dirstripped @ ''/'';
                path = DirName e dirstripped
            in case Ls e w path ''-F'' of
                 None \<Rightarrow> False
               | Some res \<Rightarrow> name_listed dir res))"

text \<open>
  \<^verbatim>\<open>RemoteFileExists\<close> lists \<open>lfn\<close> itself and looks at the first entry only: it must be a
  \<^verbatim>\<open>TMap\<close> whose \<open>name\<close> is a \<^verbatim>\<open>TObjString\<close> of non-zero length.
\<close>

definition RemoteFileExists :: "env \<Rightarrow> world \<Rightarrow> string \<Rightarrow> bool" where
  "RemoteFileExists e w lfn =
     (if \<not> gGrid w then False
      else (case Ls e w lfn [] of
              None \<Rightarrow> False
            | Some res \<Rightarrow>
                (case res of
                   [] \<Rightarrow> False
                 | NotATMap # rest \<Rightarrow> False
                 | TMap m # rest \<Rightarrow>
                     (case map_of m ''name'' of
                        Some (TObjString objs) \<Rightarrow> length objs \<noteq> 0
                      | Some (TNamed n) \<Rightarrow> False
                      | None \<Rightarrow> False))))"

subsection \<open>\<^verbatim>\<open>HasVars\<close> and \<^verbatim>\<open>ReplaceVars\<close>\<close>

definition HasVars :: "env \<Rightarrow> world \<Rightarrow> string \<Rightarrow> bool" where
  "HasVars e w file =
     list_ex (\<lambda>sline. Contains sline ''VAR_'' \<and> \<not> BeginsWith sline ''//'')
       (getlines (read_file e w file))"

text \<open>
  The work of \<^verbatim>\<open>ReplaceVars\<close> on one line:
  \<^verbatim>\<open>
  while (sline.Contains("VAR_") && !sline.BeginsWith("//") )
  {
    ++nvars;
    TObjString* key;
    next.Reset();
    while ( ( key = static_cast<TObjString*>(next())) )
    {
      if ( sline.Contains(key->String()) )
      {
        ++nreplaced;
        TObjString* value = static_cast<TObjString*>(fVars->GetValue(key->String()));
        sline.ReplaceAll(key->String(),value->String());
        break;
      }
    }
  }
  \<close>
  The inner loop takes the first key, in the iterator's order, that occurs in the line.
  When no key occurs in the line the line stays as it is and the outer loop goes round
  again: the function is partial.
\<close>

partial_function (option) replace_line ::
    "(string \<times> string) list \<Rightarrow> string \<Rightarrow> int \<Rightarrow> int \<Rightarrow> (string \<times> int \<times> int) option" where
  "replace_line vars sline nvars nreplaced =
     (if Contains sline ''VAR_'' \<and> \<not> BeginsWith sline ''//''
      then (case find (\<lambda>kv. Contains sline (fst kv)) vars of
              Some kv \<Rightarrow> replace_line vars (ReplaceAll (fst kv) (snd kv) sline) (nvars + 1) (nreplaced + 1)
            | None \<Rightarrow> replace_line vars sline (nvars + 1) nreplaced)
      else Some (sline, nvars, nreplaced))"

declare replace_line.simps [code]

fun replace_lines ::
    "(string \<times> string) list \<Rightarrow> string list \<Rightarrow> int \<Rightarrow> int \<Rightarrow> (string list \<times> int \<times> int) option" where
  "replace_lines vars [] nvars nreplaced = Some ([], nvars, nreplaced)"
| "replace_lines vars (l # ls) nvars nreplaced =
     (case replace_line vars l nvars nreplaced of
        None \<Rightarrow> None
      | Some (sline, nv, nr) \<Rightarrow>
          (case replace_lines vars ls nv nr of
             None \<Rightarrow> None
           | Some (lines, nv', nr') \<Rightarrow> Some (sline # lines, nv', nr')))"

text \<open>
  After the loop over the lines:
  \<^verbatim>\<open>
  if ( nvars > 0 )
  {
    if ( nreplaced != nvars ) { AliError(...); return kFALSE; }
    std::ofstream out(file);
    ... out << s->String().Data() << std::endl; ...
  }
  return kTRUE;
  \<close>
\<close>

definition ReplaceVars :: "env \<Rightarrow> submitter \<Rightarrow> string \<Rightarrow> world \<Rightarrow> (bool \<times> world) result" where
  "ReplaceVars e s file w =
     (case replace_lines (fVars s) (getlines (read_file e w file)) 0 0 of
        None \<Rightarrow> Diverges
      | Some (lines, nvars, nreplaced) \<Rightarrow>
          if nvars > 0
          then (if nreplaced \<noteq> nvars then Returns (False, w)
                else Returns (True, write_file e file lines w))
          else Returns (True, w))"

subsection \<open>\<^verbatim>\<open>Output\<close>: one key of a JDL\<close>

text \<open>
  The text goes to a stream; every call ends its last line with \<^verbatim>\<open>std::endl\<close>, so a call
  yields whole lines. With more than one value:
  \<^verbatim>\<open>
  out << "{" << std::endl;
  while ( ( v = static_cast<TObjString*>(next())) )
  {
    --n;
    out << "\t\"" << v->String().Data() << "\"";
    if  ( n ) out << ",";
    out << std::endl;
  }
  out << "}";
  \<close>
\<close>

definition quoted :: "string \<Rightarrow> string" where
  "quoted v = [CHR 0x22] @ v @ [CHR 0x22]"

fun Output_values :: "int \<Rightarrow> string list \<Rightarrow> string list" where
  "Output_values n [] = []"
| "Output_values n (v # rest) =
     ([CHR 0x09] @ quoted v @ (if n - 1 \<noteq> 0 then '','' else [])) # Output_values (n - 1) rest"

text \<open>
  With no value at all, \<^verbatim>\<open>values.At(0)\<close> is a null pointer and is dereferenced.
\<close>

definition Output :: "string \<Rightarrow> string list \<Rightarrow> string list result" where
  "Output key values =
     (let n = int (length values) in
      if n > 1
      then Returns ([key @ '' = {''] @ Output_values n values @ [''};''])
      else (case values of
              [] \<Rightarrow> Undefined
            | v1 # rest \<Rightarrow>
                if IsDigit v1
                then (case Atoi v1 of
                        None \<Rightarrow> Undefined
                      | Some i \<Rightarrow> Returns [key @ '' = '' @ show_int i @ '';''])
                else Returns [key @ '' = '' @ quoted v1 @ '';'']))"

text \<open>
  The overload with up to nine C strings: the first is always a value, the others when
  they are not empty.
\<close>

definition Output_strings :: "string \<Rightarrow> string \<Rightarrow> string list \<Rightarrow> string list result" where
  "Output_strings key v1 vs = Output key (v1 # filter (\<lambda>v. length v > 0) vs)"

subsection \<open>\<^verbatim>\<open>Submit\<close>\<close>

text \<open>
  The event count of a run:
  \<^verbatim>\<open>
  Int_t nEvtRun(fFixedNofEvents);
  if ( fRatio > 0 )
  {
    AliAnalysisTriggerScalerItem* trigger = fScalers->GetTriggerScaler(runNumber, "L2A", ReferenceTrigger().Data());
    if (!trigger) { AliError(...); continue; }
    nEvtRun = TMath::Nint(fRatio * trigger->Value());
  }
  \<close>
  With no scaler item for the reference trigger the run is skipped (\<open>None\<close>). \<open>fRatio\<close> is
  a \<open>Float_t\<close> and \<^verbatim>\<open>Value()\<close> an unsigned 64-bit count (both declared in headers that are
  not part of the sources given): the count is converted to a float, the product is a
  float, and \<^verbatim>\<open>Nint\<close> makes an \<open>Int_t\<close> of it, if it fits.
\<close>

definition run_events :: "submitter \<Rightarrow> scalers \<Rightarrow> int \<Rightarrow> int result option" where
  "run_events s sc runNumber =
     (if fRatio s > 0
      then (case GetTriggerScaler sc runNumber ''L2A'' (fReferenceTrigger s) of
              None \<Rightarrow> None
            | Some v \<Rightarrow> Some (Nint (Float_t (fRatio s * Float_t (of_nat v)))))
      else Some (Returns (fFixedNofEvents s)))"

text \<open>
  \<^verbatim>\<open>Form("submit %s %d %d %d", RunJDLName().Data(), runNumber, nChunk, nEvtChunk)\<close>
\<close>

definition submit_query :: "env \<Rightarrow> int \<Rightarrow> int \<Rightarrow> int \<Rightarrow> string" where
  "submit_query e runNumber nChunk nEvtChunk =
     ''submit '' @ RunJDLName e @ '' '' @ show_int runNumber @ '' '' @ show_int nChunk
       @ '' '' @ show_int nEvtChunk"

text \<open>
  The command of one run and what is printed about it:
  \<^verbatim>\<open>
  std::cout << query.Data() << " ..." << std::flush;
  TGridResult* res = 0x0;
  if (!dryRun) { res = gGrid->Command(query); }
  if (res)
  {
    TString cjobId1 = res->GetKey(0,"jobId");
    if (!cjobId1.Length())
    {
      std::cout << " FAILED" << std::endl << std::endl;
      gGrid->Stdout();
      gGrid->Stderr();
    }
    else
    {
      std::cout << "DONE" << std::endl;
      std::cout << Form("   --> the job Id is: %s",cjobId1.Data()) << std::endl << std::endl;
    }
  }
  else
  {
    std::cout << " FAILED" << std::endl << std::endl;
  }
  \<close>
  In a dry run no command is sent and \<open>res\<close> stays null.
\<close>

definition Submit_command :: "env \<Rightarrow> bool \<Rightarrow> string \<Rightarrow> world \<Rightarrow> world" where
  "Submit_command e dryRun query w =
     (let w1 = log (Stdout (query @ '' ...'')) w in
      if dryRun then log (Stdout ('' FAILED'' @ endl @ endl)) w1
      else (case Command e w1 query of
              None \<Rightarrow> log (Stdout ('' FAILED'' @ endl @ endl)) (log (GridCommand query None) w1)
            | Some cjobId1 \<Rightarrow>
                (let w2 = log (GridCommand query (Some cjobId1)) w1 in
                 if length cjobId1 = 0
                 then log GridStderr (log GridStdout (log (Stdout ('' FAILED'' @ endl @ endl)) w2))
                 else log (Stdout (''   --> the job Id is: '' @ cjobId1 @ endl @ endl))
                        (log (Stdout (''DONE'' @ endl)) w2))))"

text \<open>
  The body of the loop over the runs, once the event count of the run is known. The state
  of the loop is \<open>nJobs\<close>, \<open>nEvts\<close> and the world.
  \<^verbatim>\<open>
  Int_t nChunk = 1;
  while (nEvtRun/nChunk+0.5 > MaxEventsPerChunk()) { ++nChunk; }
  Int_t nEvtChunk = TMath::Nint(nEvtRun/nChunk + 0.5);
  nJobs += nChunk;
  nEvts += nChunk*nEvtChunk;
  std::cout << runNumber << "\t" << nChunk << "\t" << nEvtChunk << std::endl;
  TString query(Form("submit %s %d %d %d", RunJDLName().Data(), runNumber, nChunk, nEvtChunk));
  \<close>
  The sums and the product are \<open>Int_t\<close> arithmetic.
\<close>

definition Submit_run ::
    "env \<Rightarrow> submitter \<Rightarrow> bool \<Rightarrow> int \<Rightarrow> int \<Rightarrow> int \<times> int \<times> world
      \<Rightarrow> (int \<times> int \<times> world) result" where
  "Submit_run e s dryRun runNumber nEvtRun st =
     (case st of (nJobs, nEvts, w) \<Rightarrow>
        bind_result (nChunk_loop nEvtRun (fMaxEventsPerChunk s) 1) (\<lambda>nChunk.
        bind_result (Nint (of_int (nEvtRun sdiv nChunk) + 1 / 2)) (\<lambda>nEvtChunk.
        bind_result (Int_t (nJobs + nChunk)) (\<lambda>nJobs1.
        bind_result (Int_t (nChunk * nEvtChunk)) (\<lambda>product.
        bind_result (Int_t (nEvts + product)) (\<lambda>nEvts1.
          (let w1 = log (Stdout (show_int runNumber @ [CHR 0x09] @ show_int nChunk
                                   @ [CHR 0x09] @ show_int nEvtChunk @ endl)) w;
               query = submit_query e runNumber nChunk nEvtChunk;
               w2 = Submit_command e dryRun query w1
           in Returns (nJobs1, nEvts1, w2))))))))"

text \<open>The loop: a run without event count is skipped.\<close>

fun Submit_loop ::
    "env \<Rightarrow> submitter \<Rightarrow> scalers \<Rightarrow> bool \<Rightarrow> int list \<Rightarrow> int \<times> int \<times> world
      \<Rightarrow> (int \<times> int \<times> world) result" where
  "Submit_loop e s sc dryRun [] st = Returns st"
| "Submit_loop e s sc dryRun (runNumber # rest) st =
     (case run_events s sc runNumber of
        None \<Rightarrow> Submit_loop e s sc dryRun rest st
      | Some r \<Rightarrow>
          (case bind_result r (\<lambda>nEvtRun. Submit_run e s dryRun runNumber nEvtRun st) of
             Returns st1 \<Rightarrow> Submit_loop e s sc dryRun rest st1
           | Undefined \<Rightarrow> Undefined
           | Diverges \<Rightarrow> Diverges))"

text \<open>
  \<^verbatim>\<open>Submit\<close> returns \<open>nJobs\<close>. \<^verbatim>\<open>gGrid->Cd\<close> dereferences the Grid handle without a test.
\<close>

definition Submit :: "env \<Rightarrow> submitter \<Rightarrow> bool \<Rightarrow> world \<Rightarrow> (int \<times> world) result" where
  "Submit e s dryRun w =
     (if \<not> fIsValid s then Returns (0, w)
      else if \<not> gGrid w then Undefined
      else (let w1 = log (GridCd (fRemoteDir s)) w in
            if \<not> RemoteFileExists e w1 (RunJDLName e) then Returns (0, w1)
            else (case fScalers s of
                    None \<Rightarrow> Returns (0, w1)
                  | Some sc \<Rightarrow>
                      if GetRunList sc = [] then Returns (0, w1)
                      else (let w2 = log (Stdout (''run'' @ [CHR 0x09] @ ''chunks'' @ [CHR 0x09] @ ''events'' @ endl)) w1;
                                w3 = log (Stdout (''----------------------'' @ endl)) w2
                            in bind_result (Submit_loop e s sc dryRun (GetRunList sc) (0, 0, w3))
                                 (\<lambda>(nJobs, nEvts, w4).
                                    Returns (nJobs,
                                      log (Stdout (endl @ ''total number of jobs = '' @ show_int nJobs @ endl
                                                   @ ''total number of generated events = ''
                                                   @ show_int nEvts @ endl @ endl)) w4))))))"

subsection \<open>\<^verbatim>\<open>GetLastStage\<close>\<close>






subsection \<open>\<^verbatim>\<open>Merge\<close>\<close>



text \<open>\<^verbatim>\<open>echo <line> >> <path>\<close> and \<^verbatim>\<open>cat <path>\<close>.\<close>

definition echo_append :: "env \<Rightarrow> string \<Rightarrow> string \<Rightarrow> world \<Rightarrow> world" where
  "echo_append e line path w = write_file e path (read_file e w path @ [line]) w"











subsection \<open>Uploading: \<^verbatim>\<open>CopyFile\<close>, \<^verbatim>\<open>CheckRemoteDir\<close>, \<^verbatim>\<open>CopyLocalFilesToRemote\<close>\<close>

definition CopyFile :: "env \<Rightarrow> submitter \<Rightarrow> string \<Rightarrow> world \<Rightarrow> (bool \<times> world) result" where
  "CopyFile e s localFile w =
     (let local = (if IsAbsoluteFileName e localFile then localFile
                   else fLocalDir s @ ''/'' @ ExpandPathName e localFile)
      in if AccessPathName e w local then Returns (False, w)
         else
           (let remote = fRemoteDir s @ ''/''
                           @ (if IsAbsoluteFileName e localFile
                              then ReplaceAll (fSnapshotDir s) [] localFile
                              else localFile);
                dirName = DirName e remote;
                cp = (\<lambda>w'. Returns (Cp e w' local (''alien://'' @ remote),
                                     log (FileCp local (''alien://'' @ remote)) w'))
            in if \<not> RemoteDirectoryExists e w dirName
               then (if \<not> gGrid w then Undefined
                     else if Mkdir e w dirName then cp (log (GridMkdir dirName) w)
                     else Returns (False, log (GridMkdir dirName) w))
               else cp w))"

text \<open>\<^verbatim>\<open>TGrid::Connect\<close> sets \<^verbatim>\<open>gGrid\<close> when it succeeds.\<close>

definition CheckRemoteDir :: "env \<Rightarrow> submitter \<Rightarrow> world \<Rightarrow> bool \<times> world" where
  "CheckRemoteDir e s w =
     (if fRemoteDir s = [] then (False, w)
      else if \<not> gGrid w \<and> \<not> Connect e w then (False, log GridConnect w)
      else (let w1 = (if \<not> gGrid w then (log GridConnect w)\<lparr>gGrid := True\<rparr> else w)
            in if \<not> RemoteDirectoryExists e w1 (fRemoteDir s) then (False, w1) else (True, w1)))"

text \<open>\<^verbatim>\<open>allok = allok && CopyFile(ftc->String());\<close> copies no more after a failure.\<close>

fun CopyLocalFiles_loop ::
    "env \<Rightarrow> submitter \<Rightarrow> string list \<Rightarrow> bool \<Rightarrow> world \<Rightarrow> (bool \<times> world) result" where
  "CopyLocalFiles_loop e s [] allok w = Returns (allok, w)"
| "CopyLocalFiles_loop e s (ftc # rest) allok w =
     (if allok
      then (case CopyFile e s ftc w of
              Returns (ok, w') \<Rightarrow> CopyLocalFiles_loop e s rest ok w'
            | Undefined \<Rightarrow> Undefined
            | Diverges \<Rightarrow> Diverges)
      else CopyLocalFiles_loop e s rest False w)"

definition CopyLocalFilesToRemote ::
    "env \<Rightarrow> submitter \<Rightarrow> world \<Rightarrow> (bool \<times> world \<times> submitter) result" where
  "CopyLocalFilesToRemote e s w =
     (if \<not> fIsValid s then Returns (False, w, s)
      else (let (ok, w1) = CheckRemoteDir e s w in
            if ok
            then (let (lfl, s') = LocalFileList e s in
                  bind_result (CopyLocalFiles_loop e s' lfl True w1)
                    (\<lambda>(allok, w2). Returns (allok, w2, s')))
            else Returns (False, w1, s)))"

subsection \<open>\<^verbatim>\<open>MakeOCDBSnapshots\<close>\<close>

fun MakeOCDBSnapshots_loop ::
    "env \<Rightarrow> int list \<Rightarrow> bool \<times> world \<times> submitter \<Rightarrow> bool \<times> world \<times> submitter" where
  "MakeOCDBSnapshots_loop e [] st = st"
| "MakeOCDBSnapshots_loop e (runNumber # rest) (ok, w, s) =
     (let ocdbSim = fSnapshotDir s @ ''/OCDB/'' @ show_int runNumber @ ''/OCDB_sim.root'';
          ocdbRec = fSnapshotDir s @ ''/OCDB/'' @ show_int runNumber @ ''/OCDB_rec.root''
      in if \<not> AccessPathName e w ocdbSim \<and> \<not> AccessPathName e w ocdbRec
         then MakeOCDBSnapshots_loop e rest (ok, w, s)
         else
           (let w1 = log (Exec (''aliroot -b -q -x simrun.C --run '' @ show_int runNumber @ '' --snapshot''))
                       (w\<lparr>files := simrun_snapshot e w runNumber\<rparr>);
                ok1 = (if AccessPathName e w1 ocdbSim then False else ok);
                ok2 = (if AccessPathName e w1 ocdbRec then False else ok1);
                (lfl, s1) = LocalFileList e s;
                s2 = s1\<lparr>fLocalFileList := Some (lfl @ [ocdbSim, ocdbRec])\<rparr>
            in MakeOCDBSnapshots_loop e rest (ok2, w1, s2)))"

definition MakeOCDBSnapshots :: "env \<Rightarrow> submitter \<Rightarrow> world \<Rightarrow> bool \<times> world \<times> submitter" where
  "MakeOCDBSnapshots e s w =
     (if \<not> fIsValid s then (False, w, s)
      else if \<not> fUseOCDBSnapshots s then (True, w, s)
      else (case fScalers s of
              None \<Rightarrow> (False, w, s)
            | Some sc \<Rightarrow> MakeOCDBSnapshots_loop e (GetRunList sc) (True, w, s)))"

subsection \<open>Generating the JDL files\<close>

text \<open>
  \<^verbatim>\<open>CreateJDLFile\<close> opens a stream on \<open>fLocalDir/name\<close>, which empties the file; the stream
  is the path it writes to. Text sent to the stream is appended to the file.
\<close>

definition CreateJDLFile :: "env \<Rightarrow> submitter \<Rightarrow> string \<Rightarrow> world \<Rightarrow> string option \<times> world" where
  "CreateJDLFile e s name w =
     (let jdl = fLocalDir s @ ''/'' @ name in
      if \<not> fShouldOverwriteFiles s \<and> \<not> AccessPathName e w jdl then (None, w)
      else if ofstream_bad e w (ExpandPathName e jdl) then (None, w)
      else (Some (ExpandPathName e jdl), write_file e (ExpandPathName e jdl) [] w))"

definition stream_write :: "env \<Rightarrow> string \<Rightarrow> string list \<Rightarrow> world \<Rightarrow> world" where
  "stream_write e os content w = write_file e os (read_file e w os @ content) w"

fun Output_all :: "string list result list \<Rightarrow> string list result" where
  "Output_all [] = Returns []"
| "Output_all (r # rs) =
     (case r of
        Undefined \<Rightarrow> Undefined
      | Diverges \<Rightarrow> Diverges
      | Returns content \<Rightarrow>
          (case Output_all rs of
             Undefined \<Rightarrow> Undefined
           | Diverges \<Rightarrow> Diverges
           | Returns content' \<Rightarrow> Returns (content @ content')))"

definition GenerateMergeJDL :: "env \<Rightarrow> submitter \<Rightarrow> string \<Rightarrow> world \<Rightarrow> (bool \<times> world) result" where
  "GenerateMergeJDL e s name w =
     (case CreateJDLFile e s name w of
        (None, w1) \<Rightarrow> Returns (False, w1)
      | (Some os, w1) \<Rightarrow>
          (let final = ContainsIgnoreCase name ''merge'';
               w2 = stream_write e os
                      [''# Generated merging jdl (production mode)'',
                       ''# $1 = run number'',
                       ''# $2 = merging stage'',
                       ''# Stage_<n>.xml made via: find <OutputDir> *Stage<n-1>/*root_archive.zip''] w1
           in bind_result
                (Output_all
                  ([Output_strings ''Packages'' (fPackageAliroot s)
                      [fPackageGeant3 s, fPackageRoot s, fPackageApi s],
                    Output_strings ''Executable'' ''AOD_merge.sh'' [],
                    Output_strings ''Price'' ''1'' [],
                    (if final
                     then Output_strings ''Jobtag'' ''comment: AliMuonAccEffSubmitter final merging'' []
                     else Output_strings ''Jobtag'' ''comment: AliMuonAccEffSubmitter merging stage $2'' []),
                    Output_strings ''Workdirectorysize'' ''5000MB'' [],
                    Output_strings ''Validationcommand'' (fRemoteDir s @ ''/validation_merge.sh'') [],
                    Output_strings ''TTL'' ''7200'' [],
                    Output_strings ''OutputArchive'' ''log_archive.zip:stderr,stdout@disk=1''
                      [''root_archive.zip:AliAOD.root,AliAOD.Muons.root,AnalysisResults.root@disk=3''],
                    Output_strings ''Arguments'' (if final then ''2'' else ''1'') []]
                   @ (if \<not> final
                      then [Output_strings ''InputFile'' (''LF:'' @ fRemoteDir s @ ''/AODtrain.C'') [],
                            Output_strings ''OutputDir''
                              (fRemoteDir s @ ''/$1/Stage_$2/#alien_counter_03i#'') [],
                            Output_strings ''InputDataCollection''
                              (fRemoteDir s @ ''/$1/Stage_$2.xml,nodownload'') [],
                            Output_strings ''split'' ''se'' [],
                            Output_strings ''SplitMaxInputFileNumber'' (GetSplitMaxInputFileNumber e s) [],
                            Output_strings ''InputDataListFormat'' ''xml-single'' [],
                            Output_strings ''InputDataList'' ''wn.xml'' []]
                      else [Output_strings ''InputFile'' (''LF:'' @ fRemoteDir s @ ''/AODtrain.C'')
                              [''LF:'' @ fRemoteDir s @ ''/$1/wn.xml''],
                            Output_strings ''OutputDir'' (fRemoteDir s @ ''/$1'') []])))
                (\<lambda>content. Returns (True, stream_write e os content w2))))"

definition GenerateRunJDL ::
    "env \<Rightarrow> submitter \<Rightarrow> string \<Rightarrow> world \<Rightarrow> (bool \<times> world \<times> submitter) result" where
  "GenerateRunJDL e s name w =
     (case CreateJDLFile e s name w of
        (None, w1) \<Rightarrow> Returns (False, w1, s)
      | (Some os, w1) \<Rightarrow>
          (let (tfl, s') = TemplateFileList e s;
               files = map (\<lambda>file. ''LF:'' @ fRemoteDir s @ ''/'' @ file)
                         (filter (\<lambda>file. \<not> ContainsIgnoreCase file ''.jdl'' \<or> \<not> Contains file ''OCDB_'') tfl)
                       @ (if fUseOCDBSnapshots s
                          then [''LF:'' @ fRemoteDir s @ ''/OCDB/$1/OCDB_sim.root'',
                                ''LF:'' @ fRemoteDir s @ ''/OCDB/$1/OCDB_rec.root'']
                          else []);
               before = Output_all
                  [Output_strings ''Packages'' (fPackageAliroot s)
                     [fPackageGeant3 s, fPackageRoot s, fPackageApi s],
                   Output_strings ''Jobtag'' ''comment: AliMuonAccEffSubmitter RUN $1'' [],
                   Output_strings ''split'' ''production:1-$2'' [],
                   Output_strings ''Price'' ''1'' [],
                   Output_strings ''OutputDir'' (fRemoteDir s @ ''/$1/#alien_counter_03i#'') [],
                   Output_strings ''Executable'' ''/alice/bin/aliroot_new'' [],
                   Output ''InputFile'' files];
               archive =
                 (if fCompactMode s = 0
                  then Some (Output_strings ''OutputArchive''
                         ''log_archive.zip:stderr,stdout,aod.log,checkaod.log,checkesd.log,rec.log,sim.log@disk=1''
                         [''root_archive.zip:galice*.root,Kinematics*.root,TrackRefs*.root,AliESDs.root,AliAOD.root,AliAOD.Muons.root,Merged.QA.Data.root,Run*.root@disk=2''])
                  else if fCompactMode s = 1
                  then Some (Output_strings ''OutputArchive''
                         ''log_archive.zip:stderr,stdout,aod.log,checkaod.log,checkesd.log,rec.log,sim.log@disk=1''
                         [''root_archive.zip:galice*.root,AliAOD.Muons.root@disk=2''])
                  else None)
           in bind_result before (\<lambda>content.
                case archive of
                  None \<Rightarrow> Returns (False, stream_write e os content w1, s')
                | Some out \<Rightarrow>
                    bind_result
                      (Output_all
                        [out,
                         Output_strings ''splitarguments''
                           ''simrun.C --run $1 --chunk #alien_counter# --event $3'' [],
                         Output_strings ''Workdirectorysize'' ''5000MB'' [],
                         Output_strings ''JDLVariables'' ''Packages'' [''OutputDir''],
                         Output_strings ''Validationcommand'' (fRemoteDir s @ ''/validation.sh'') [],
                         Output_strings ''TTL'' ''72000'' []])
                      (\<lambda>content'. Returns (True, stream_write e os (content @ content') w1, s')))))"

subsection \<open>\<^verbatim>\<open>CopyTemplateFilesToLocal\<close>\<close>

text \<open>
  The loop over the template files; its state is \<open>err\<close>, \<open>potentialProblem\<close>, the world and
  the object. A file that \<^verbatim>\<open>gSystem->CopyFile\<close> could not copy (\<open>c \<noteq> 0\<close>) is generated if
  its name says it is a JDL.
\<close>

fun CopyTemplateFiles_loop ::
    "env \<Rightarrow> string list \<Rightarrow> int \<times> bool \<times> world \<times> submitter
      \<Rightarrow> (int \<times> bool \<times> world \<times> submitter) result" where
  "CopyTemplateFiles_loop e [] st = Returns st"
| "CopyTemplateFiles_loop e (file # rest) (err, potentialProblem, w, s) =
     (if Contains file ''OCDB'' then CopyTemplateFiles_loop e rest (err, potentialProblem, w, s)
      else if \<not> fShouldOverwriteFiles s \<and> \<not> AccessPathName e w file
      then CopyTemplateFiles_loop e rest (err, True, w, s)
      else
        (let stemplate = fTemplateDir s @ ''/'' @ file;
             slocal = fLocalDir s @ ''/'' @ file;
             (c, w1) = CopyFile_gSystem e stemplate slocal (fShouldOverwriteFiles s) w
         in if c \<noteq> 0
            then (case (if ContainsIgnoreCase stemplate ''.jdl''
                        then (if ContainsIgnoreCase stemplate ''merge''
                              then bind_result (GenerateMergeJDL e s file w1)
                                     (\<lambda>(ok, w2). Returns (ok, w2, s))
                              else GenerateRunJDL e s file w1)
                        else Returns (False, w1, s)) of
                    Undefined \<Rightarrow> Undefined
                  | Diverges \<Rightarrow> Diverges
                  | Returns (ok, w2, s2) \<Rightarrow>
                      CopyTemplateFiles_loop e rest
                        (err + (if \<not> ok then c else 0), potentialProblem, w2, s2))
            else if HasVars e w1 slocal
            then (case ReplaceVars e s slocal w1 of
                    Undefined \<Rightarrow> Undefined
                  | Diverges \<Rightarrow> Diverges
                  | Returns (ok, w2) \<Rightarrow>
                      CopyTemplateFiles_loop e rest
                        (err + (if \<not> ok then 1 else c), potentialProblem, w2, s))
            else CopyTemplateFiles_loop e rest (err + c, potentialProblem, w1, s)))"

definition CopyTemplateFilesToLocal ::
    "env \<Rightarrow> submitter \<Rightarrow> world \<Rightarrow> (bool \<times> world \<times> submitter) result" where
  "CopyTemplateFilesToLocal e s w =
     (if \<not> fIsValid s then Returns (False, w, s)
      else (let (tfl, s1) = TemplateFileList e s in
            bind_result (CopyTemplateFiles_loop e tfl (0, False, w, s1))
              (\<lambda>(err, potentialProblem, w', s').
                 if potentialProblem then Returns (False, w', s')
                 else Returns (err = 0, w', s'))))"

subsection \<open>\<^verbatim>\<open>Run\<close>\<close>

text \<open>
  \<^verbatim>\<open>Run\<close> calls itself with the names of the basic modes. Each of these calls tests
  \<^verbatim>\<open>IsValid()\<close> again and then does the work of its mode; \<open>Run_LOCAL\<close>, \<open>Run_UPLOAD\<close>,
  \<open>Run_SUBMIT\<close> and \<open>Run_OCDB\<close> are these calls. \<open>and_then\<close> is the \<^verbatim>\<open>&&\<close> of two calls: the
  second runs only when the first returned true. The source tests \<^verbatim>\<open>smode == "FULL"\<close> a second
  time after \<^verbatim>\<open>"TEST"\<close>; the first test has returned by then, so that branch is never taken
  and has no counterpart here.
\<close>

type_synonym run_result = "(bool \<times> world \<times> submitter) result"

definition and_then :: "run_result \<Rightarrow> (submitter \<Rightarrow> world \<Rightarrow> run_result) \<Rightarrow> run_result" where
  "and_then r f = bind_result r (\<lambda>(ok, w, s). if ok then f s w else Returns (False, w, s))"

definition Run_LOCAL :: "env \<Rightarrow> submitter \<Rightarrow> world \<Rightarrow> run_result" where
  "Run_LOCAL e s w = (if \<not> fIsValid s then Returns (False, w, s) else CopyTemplateFilesToLocal e s w)"

definition Run_UPLOAD :: "env \<Rightarrow> submitter \<Rightarrow> world \<Rightarrow> run_result" where
  "Run_UPLOAD e s w = (if \<not> fIsValid s then Returns (False, w, s) else CopyLocalFilesToRemote e s w)"

definition Submit_positive :: "env \<Rightarrow> bool \<Rightarrow> submitter \<Rightarrow> world \<Rightarrow> run_result" where
  "Submit_positive e dryRun s w =
     bind_result (Submit e s dryRun w) (\<lambda>(nJobs, w'). Returns (nJobs > 0, w', s))"

definition Run_SUBMIT :: "env \<Rightarrow> submitter \<Rightarrow> world \<Rightarrow> run_result" where
  "Run_SUBMIT e s w = (if \<not> fIsValid s then Returns (False, w, s) else Submit_positive e False s w)"

definition Run_OCDB :: "env \<Rightarrow> submitter \<Rightarrow> world \<Rightarrow> run_result" where
  "Run_OCDB e s w =
     (if \<not> fIsValid s then Returns (False, w, s)
      else and_then (Run_LOCAL e s w) (\<lambda>s' w'. Returns (MakeOCDBSnapshots e s' w')))"

definition Run :: "env \<Rightarrow> submitter \<Rightarrow> string \<Rightarrow> world \<Rightarrow> run_result" where
  "Run e s mode w =
     (if \<not> fIsValid s then Returns (False, w, s)
      else (let smode = ToUpper mode in
            if smode = ''FULL''
            then and_then (and_then (and_then (Run_LOCAL e s w) (Run_OCDB e)) (Run_UPLOAD e)) (Run_SUBMIT e)
            else if smode = ''LOCAL'' then CopyTemplateFilesToLocal e s w
            else if smode = ''UPLOAD'' then CopyLocalFilesToRemote e s w
            else if smode = ''OCDB''
            then and_then (Run_LOCAL e s w) (\<lambda>s' w'. Returns (MakeOCDBSnapshots e s' w'))
            else if smode = ''TEST''
            then and_then (and_then (and_then (Run_LOCAL e s w) (Run_OCDB e)) (Run_UPLOAD e))
                   (Submit_positive e True)
            else if smode = ''SUBMIT'' then Submit_positive e False s w
            else Returns (False, w, s)))"

section \<open>A sample configuration\<close>

text \<open>
  An environment, an object and a world to run the operations on: a Unix-like system; an
  object as the constructor leaves it for the generator \<^verbatim>\<open>GenParamCustom\<close>, with its
  directories and its reference trigger set afterwards; and a connected Grid that lists
  nothing and answers no command. The examples below change the fields they need.
\<close>

definition sample_env :: env where
  "sample_env =
     \<lparr>resolve = (\<lambda>path. path),
      BaseName = (\<lambda>path. rev (takeWhile (\<lambda>c. c \<noteq> CHR ''/'') (rev path))),
      DirName = (\<lambda>path. rev (drop 1 (dropWhile (\<lambda>c. c \<noteq> CHR ''/'') (rev path)))),
      ExpandPathName = (\<lambda>path. path),
      IsAbsoluteFileName = (\<lambda>path. BeginsWith path ''/''),
      Ls = (\<lambda>w path opt. None),
      Mkdir = (\<lambda>w dir. True),
      Cp = (\<lambda>w src dst. True),
      Command = (\<lambda>w query. None),
      Connect = (\<lambda>w. True),
      alien_ls = (\<lambda>w dir. []),
      alien_find = (\<lambda>w cmd. []),
      simrun_snapshot = (\<lambda>w run. files w),
      ofstream_bad = (\<lambda>w path. False),
      RunJDLName = ''run.jdl'',
      MergeJDLName = (\<lambda>final. if final then ''AOD_merge_final.jdl'' else ''AOD_merge.jdl''),
      GetSplitMaxInputFileNumber = (\<lambda>s. show_int (fSplitMaxInputFileNumber s))\<rparr>"

text \<open>
  The variable store as the constructor fills it, before it sets the generator:
  \<^verbatim>\<open>
  SetVar("VAR_OCDB_PATH","\"raw://\"");
  SetVar("VAR_GENPARAM_GENLIB_TYPE","AliGenMUONlib::kJpsi");
  SetVar("VAR_GENPARAM_GENLIB_PARNAME","\"pPb 5.03\"");
  SetVar("VAR_GENCORRHF_QUARK","5");
  SetVar("VAR_GENCORRHF_ENERGY","5");
  SetVar("VAR_GENPARAMCUSTOM_PDGPARTICLECODE","443");
  SetVar("VAR_GENPARAMCUSTOM_Y_P0","4.08E5");
  SetVar("VAR_GENPARAMCUSTOM_Y_P1","7.1E4");
  SetVar("VAR_GENPARAMCUSTOM_PT_P0","1.13E9");
  SetVar("VAR_GENPARAMCUSTOM_PT_P1","18.05");
  SetVar("VAR_GENPARAMCUSTOM_PT_P2","2.05");
  SetVar("VAR_GENPARAMCUSTOM_PT_P3","3.34");
  SetVar("VAR_GENPARAMCUSTOMSINGLE_PTMIN","0.35");
  SetVar("VAR_GENPARAMCUSTOMSINGLE_PT_P0","4.05962");
  SetVar("VAR_GENPARAMCUSTOMSINGLE_PT_P1","1.0");
  SetVar("VAR_GENPARAMCUSTOMSINGLE_PT_P2","2.46187");
  SetVar("VAR_GENPARAMCUSTOMSINGLE_PT_P3","2.08644");
  SetVar("VAR_GENPARAMCUSTOMSINGLE_Y_P0","0.729545");
  SetVar("VAR_GENPARAMCUSTOMSINGLE_Y_P1","0.53837");
  SetVar("VAR_GENPARAMCUSTOMSINGLE_Y_P2","0.141776");
  SetVar("VAR_GENPARAMCUSTOMSINGLE_Y_P3","0.0130173");
  UseOCDBSnapshots(kTRUE);
  \<close>
  where \<^verbatim>\<open>UseOCDBSnapshots(kTRUE)\<close> sets \<^verbatim>\<open>VAR_OCDB_SNAPSHOT\<close> to \<^verbatim>\<open>kTRUE\<close>. \<^verbatim>\<open>SetVar\<close> replaces
  the entry of a name or adds one; nothing in the class takes a name out of the store. The
  order in which the iterator of the \<^verbatim>\<open>TMap\<close> visits the names is not fixed by the class;
  they are listed here in the order in which they are set.
\<close>

definition constructor_vars :: "(string \<times> string) list" where
  "constructor_vars =
     [(''VAR_OCDB_PATH'', quoted ''raw://''),
      (''VAR_GENPARAM_GENLIB_TYPE'', ''AliGenMUONlib::kJpsi''),
      (''VAR_GENPARAM_GENLIB_PARNAME'', quoted ''pPb 5.03''),
      (''VAR_GENCORRHF_QUARK'', ''5''),
      (''VAR_GENCORRHF_ENERGY'', ''5''),
      (''VAR_GENPARAMCUSTOM_PDGPARTICLECODE'', ''443''),
      (''VAR_GENPARAMCUSTOM_Y_P0'', ''4.08E5''),
      (''VAR_GENPARAMCUSTOM_Y_P1'', ''7.1E4''),
      (''VAR_GENPARAMCUSTOM_PT_P0'', ''1.13E9''),
      (''VAR_GENPARAMCUSTOM_PT_P1'', ''18.05''),
      (''VAR_GENPARAMCUSTOM_PT_P2'', ''2.05''),
      (''VAR_GENPARAMCUSTOM_PT_P3'', ''3.34''),
      (''VAR_GENPARAMCUSTOMSINGLE_PTMIN'', ''0.35''),
      (''VAR_GENPARAMCUSTOMSINGLE_PT_P0'', ''4.05962''),
      (''VAR_GENPARAMCUSTOMSINGLE_PT_P1'', ''1.0''),
      (''VAR_GENPARAMCUSTOMSINGLE_PT_P2'', ''2.46187''),
      (''VAR_GENPARAMCUSTOMSINGLE_PT_P3'', ''2.08644''),
      (''VAR_GENPARAMCUSTOMSINGLE_Y_P0'', ''0.729545''),
      (''VAR_GENPARAMCUSTOMSINGLE_Y_P1'', ''0.53837''),
      (''VAR_GENPARAMCUSTOMSINGLE_Y_P2'', ''0.141776''),
      (''VAR_GENPARAMCUSTOMSINGLE_Y_P3'', ''0.0130173''),
      (''VAR_OCDB_SNAPSHOT'', ''kTRUE'')]"

text \<open>
  \<^verbatim>\<open>SetGenerator\<close> then makes the object valid, sets \<^verbatim>\<open>VAR_GENERATOR\<close> and adds the macro
  of the generator to the template file list, which this first use creates. (\<^verbatim>\<open>SetPackages\<close>
  is declared with the parameters \<open>aliroot, root, geant3, api\<close> and called with the GEANT3
  package second; the default of \<open>api\<close> is in the class header and is left empty here.)
\<close>

definition sample_submitter :: submitter where
  "sample_submitter =
     \<lparr>fScalers = None,
      fRemoteDir = ''/alice/sim'',
      fReferenceTrigger = ''CMUL7-B-NOPF-MUON'',
      fRatio = 1,
      fFixedNofEvents = 10000,
      fMaxEventsPerChunk = 5000,
      fLocalDir = ''/work'',
      fOCDBPath = ''raw://'',
      fTemplateDir = ''/templates'',
      fPackageAliroot = ''VO_ALICE@AliRoot::v5-03-Rev-18'',
      fPackageGeant3 = ''VO_ALICE@ROOT::v5-34-05-1'',
      fPackageRoot = ''VO_ALICE@GEANT3::v1-14-8'',
      fPackageApi = [],
      fMergedDir = ''/alice/sim/AODs'',
      fSplitMaxInputFileNumber = 20,
      fCompactMode = 1,
      fShouldOverwriteFiles = False,
      fVars = constructor_vars @ [(''VAR_GENERATOR'', ''GenParamCustom'')],
      fExternalConfig = [],
      fUseOCDBSnapshots = True,
      fIsValid = True,
      fTemplateFileList =
        Some [''CheckESD.C'', ''CheckAOD.C'', ''AODtrain.C'', ''validation.sh'', ''Config.C'',
              ''rec.C'', ''sim.C'', ''simrun.C'', ''run.jdl'', ''GenParamCustom.C''],
      fLocalFileList = None,
      fSnapshotDir = ''/work'',
      fUseAODMerging = False\<rparr>"

definition sample_world :: world where
  "sample_world = \<lparr>files = Map.empty, gGrid = True, stdin = [], actions = []\<rparr>"

text \<open>A listing with one entry of the given name.\<close>

definition listing :: "string \<Rightarrow> gridentry list" where
  "listing name = [TMap [(''name'', TObjString name)]]"

text \<open>The scalers of the runs 1000 and 1001, with 500 and 800 reference triggers.\<close>

definition sample_scalers :: scalers where
  "sample_scalers =
     \<lparr>GetRunList = [1000, 1001],
      GetTriggerScaler = (\<lambda>run level trigger.
         if level = ''L2A'' \<and> trigger = ''CMUL7-B-NOPF-MUON''
         then (if run = 1000 then Some 500 else if run = 1001 then Some 800 else None)
         else None)\<rparr>"

text \<open>An object whose local file list holds two ordinary files and a snapshot, and a world with these files and one more.\<close>

definition cleaning_submitter :: submitter where
  "cleaning_submitter =
     sample_submitter\<lparr>fLocalFileList :=
       Some [''Config.C'', ''/work/OCDB/1000/OCDB_sim.root'', ''sim.C'']\<rparr>"

definition cleaning_world :: world where
  "cleaning_world =
     sample_world\<lparr>files :=
       [''Config.C'' \<mapsto> [''a''], ''/work/OCDB/1000/OCDB_sim.root'' \<mapsto> [''b''],
        ''sim.C'' \<mapsto> [''c''], ''notes.txt'' \<mapsto> []]\<rparr>"

text \<open>
  A world whose local copy of \<^verbatim>\<open>Config.C\<close> names a variable the store knows and one,
  \<^verbatim>\<open>VAR_FOO\<close>, that nothing has set.
\<close>

definition template_world :: world where
  "template_world =
     sample_world\<lparr>files :=
       [''/work/Config.C'' \<mapsto> [''generator = VAR_GENERATOR;'', ''foo = VAR_FOO;'']]\<rparr>"

text \<open>
  A Grid on which \<^verbatim>\<open>/alice/sim\<close> holds the directory \<^verbatim>\<open>OCDB\<close>, which holds the
  directory \<^verbatim>\<open>1000\<close>.
\<close>

definition listing_env :: env where
  "listing_env =
     sample_env\<lparr>Ls := (\<lambda>w path opt.
        if path = ''/alice/sim'' then Some (listing ''OCDB/'')
        else if path = ''/alice/sim/OCDB'' then Some (listing ''1000'')
        else None)\<rparr>"

text \<open>
  The scenario of two runs: ratio 2, at most 600 events per chunk, the run JDL in place on
  the Grid, and a Grid that accepts every command with the job identifier 42.
\<close>

definition scenario_submitter :: submitter where
  "scenario_submitter =
     sample_submitter\<lparr>fScalers := Some sample_scalers, fRatio := 2, fMaxEventsPerChunk := 600\<rparr>"

definition scenario_env :: env where
  "scenario_env =
     sample_env\<lparr>Ls := (\<lambda>w path opt. if path = ''run.jdl'' then Some (listing ''run.jdl'') else None),
                 Command := (\<lambda>w query. Some ''42'')\<rparr>"


text \<open>
  An object in fixed-count mode (10000 events per run) whose only run, 1000, has no scaler
  item at all.
\<close>

definition no_scalers :: scalers where
  "no_scalers = \<lparr>GetRunList = [1000], GetTriggerScaler = (\<lambda>run level trigger. None)\<rparr>"

definition fixed_submitter :: submitter where
  "fixed_submitter = sample_submitter\<lparr>fScalers := Some no_scalers, fRatio := 0\<rparr>"




text \<open>The sample object and the cleaning object before they are valid.\<close>

definition invalid_submitter :: submitter where
  "invalid_submitter = sample_submitter\<lparr>fIsValid := False\<rparr>"

definition invalid_cleaning_submitter :: submitter where
  "invalid_cleaning_submitter = cleaning_submitter\<lparr>fIsValid := False\<rparr>"

section \<open>Notions used in the statements\<close>

text \<open>
  A line on which the loop of \<^verbatim>\<open>ReplaceVars\<close> makes no progress: it holds a token, is not
  a comment, and no name of the variable store occurs in it.
\<close>

definition stuck :: "(string \<times> string) list \<Rightarrow> string \<Rightarrow> bool" where
  "stuck vars sline =
     (Contains sline ''VAR_'' \<and> \<not> BeginsWith sline ''//''
      \<and> find (\<lambda>kv. Contains sline (fst kv)) vars = None)"

text \<open>The value a call returns, without the world.\<close>

definition returned :: "('a \<times> world) result \<Rightarrow> 'a result" where
  "returned r = (case r of Returns (x, w) \<Rightarrow> Returns x | Undefined \<Rightarrow> Undefined | Diverges \<Rightarrow> Diverges)"

text \<open>The commands sent to the Grid, with their replies, among some actions.\<close>

fun commands :: "action list \<Rightarrow> (string \<times> string option) list" where
  "commands [] = []"
| "commands (GridCommand query reply # as) = (query, reply) # commands as"
| "commands (a # as) = commands as"

text \<open>
  A reply that \<^verbatim>\<open>Merge\<close> takes for a failed submission: no result, or a \<^verbatim>\<open>jobId\<close> that is
  not a decimal number; and the queries, among some actions, that got such a reply.
\<close>

definition job_failed :: "string option \<Rightarrow> bool" where
  "job_failed reply = (case reply of None \<Rightarrow> True | Some cjobId1 \<Rightarrow> \<not> IsDec cjobId1)"

definition failed_queries :: "action list \<Rightarrow> string list" where
  "failed_queries as = map fst (filter (\<lambda>qr. job_failed (snd qr)) (commands as))"

text \<open>
  The runs \<^verbatim>\<open>Submit\<close> does not skip; the event count, the chunk count and the events
  per chunk its loop computes for a run (0 where the code leaves them undefined); and the
  command it makes of them.
\<close>

definition counted :: "submitter \<Rightarrow> scalers \<Rightarrow> int \<Rightarrow> bool" where
  "counted s sc run =
     (fRatio s > 0 \<longrightarrow> GetTriggerScaler sc run ''L2A'' (fReferenceTrigger s) \<noteq> None)"

definition events :: "submitter \<Rightarrow> scalers \<Rightarrow> int \<Rightarrow> int" where
  "events s sc run = (case run_events s sc run of Some (Returns nEvtRun) \<Rightarrow> nEvtRun | _ \<Rightarrow> 0)"

definition chunks :: "submitter \<Rightarrow> scalers \<Rightarrow> int \<Rightarrow> int" where
  "chunks s sc run =
     (case run_events s sc run of
        Some (Returns nEvtRun) \<Rightarrow>
          (case nChunk_loop nEvtRun (fMaxEventsPerChunk s) 1 of Returns nChunk \<Rightarrow> nChunk | _ \<Rightarrow> 0)
      | _ \<Rightarrow> 0)"



text \<open>The two counts, and the job count, in a state of the loop of \<^verbatim>\<open>Submit\<close>.\<close>

definition loop_counts :: "(int \<times> int \<times> world) result \<Rightarrow> (int \<times> int) result" where
  "loop_counts r =
     (case r of Returns (nJobs, nEvts, w) \<Rightarrow> Returns (nJobs, nEvts) | Undefined \<Rightarrow> Undefined
      | Diverges \<Rightarrow> Diverges)"

definition loop_jobs :: "(int \<times> int \<times> world) result \<Rightarrow> int result" where
  "loop_jobs r =
     (case r of Returns (nJobs, nEvts, w) \<Rightarrow> Returns nJobs | Undefined \<Rightarrow> Undefined | Diverges \<Rightarrow> Diverges)"

section \<open>Chunk planning: properties\<close>

lemma half_gt_iff: "((of_int q :: rat) + 1 / 2 > of_int m) = (m \<le> q)"
proof
  assume "(of_int q :: rat) + 1 / 2 > of_int m"
  then have "(of_int m :: rat) < of_int (q + 1)" by simp
  then have "m < q + 1" by (simp only: of_int_less_iff)
  then show "m \<le> q" by simp
next
  assume "m \<le> q"
  then have "(of_int m :: rat) \<le> of_int q" by (simp only: of_int_le_iff)
  then show "(of_int q :: rat) + 1 / 2 > of_int m" by simp
qed

lemma sdiv_nonneg_pos: "0 \<le> n \<Longrightarrow> 0 < c \<Longrightarrow> (n::int) sdiv c = n div c"
  by (simp add: signed_divide_int_def sgn_if)

lemma le_div_iff_int:
  assumes "0 < (c::int)"
  shows "(m \<le> n div c) = (m * c \<le> n)"
proof
  assume "m \<le> n div c"
  then have "m * c \<le> (n div c) * c" using assms by (simp add: mult_right_mono)
  also have "\<dots> \<le> n"
  proof -
    have "0 \<le> n mod c" using assms by simp
    moreover have "n = (n div c) * c + n mod c" by simp
    ultimately show ?thesis by linarith
  qed
  finally show "m * c \<le> n" .
next
  assume "m * c \<le> n"
  then have "(m * c) div c \<le> n div c" using assms by (rule zdiv_mono1)
  then show "m \<le> n div c" using assms by simp
qed

lemma quotient_ge_iff:
  assumes "0 < (m::int)" "0 < c"
  shows "(m \<le> n div c) = (c \<le> n div m)"
  using assms by (simp add: le_div_iff_int mult.commute)

text \<open>With a positive count, the division of the loop is defined.\<close>

lemma nChunk_loop_pos:
  assumes "0 < c"
  shows "nChunk_loop n m c =
     (if (of_int (n sdiv c) :: rat) + 1 / 2 > of_int m
      then (if c < Int_t_max then nChunk_loop n m (c + 1) else Undefined)
      else Returns c)"
proof -
  have "c \<noteq> 0" "c \<noteq> - 1" using assms by simp_all
  then show ?thesis by (subst nChunk_loop.simps) simp
qed

text \<open>
  Started at any count not beyond \<open>n div m + 1\<close>, the loop stops exactly there, if that is
  an \<open>Int_t\<close>, and overflows otherwise.
\<close>

lemma nChunk_loop_from:
  assumes "0 \<le> n" "0 < m"
  shows "0 < c \<Longrightarrow> c \<le> n div m + 1 \<Longrightarrow> c \<le> Int_t_max \<Longrightarrow>
           nChunk_loop n m c = (if n div m + 1 \<le> Int_t_max then Returns (n div m + 1) else Undefined)"
proof (induction "nat (min (n div m + 1) Int_t_max - c)" arbitrary: c)
  case 0
  then have c: "c = min (n div m + 1) Int_t_max" by simp
  have q: "(m \<le> n div c) = (c \<le> n div m)"
    using assms(2) 0(2) by (rule quotient_ge_iff)
  show ?case
  proof (cases "n div m + 1 \<le> Int_t_max")
    case True
    with c have c': "c = n div m + 1" by simp
    with q have "\<not> m \<le> n div c" by simp
    then have "\<not> m \<le> n sdiv c"
      using assms(1) 0(2) by (simp add: sdiv_nonneg_pos)
    then show ?thesis
      using True 0(2) by (subst nChunk_loop_pos) (simp_all add: half_gt_iff c')
  next
    case False
    with c have c': "c = Int_t_max" by simp
    with False q have "m \<le> n div c" by simp
    then have "m \<le> n sdiv c"
      using assms(1) 0(2) by (simp add: sdiv_nonneg_pos)
    then show ?thesis
      using False 0(2) by (subst nChunk_loop_pos) (simp_all add: half_gt_iff c')
  qed
next
  case (Suc k)
  then have c: "c \<le> n div m" "c < Int_t_max" by linarith+
  have "(m \<le> n div c) = (c \<le> n div m)"
    using assms(2) Suc.prems(1) by (rule quotient_ge_iff)
  then have "m \<le> n div c" using c by simp
  then have "m \<le> n sdiv c"
    using assms(1) Suc.prems(1) by (simp add: sdiv_nonneg_pos)
  moreover have "nChunk_loop n m (c + 1)
      = (if n div m + 1 \<le> Int_t_max then Returns (n div m + 1) else Undefined)"
    using Suc.hyps Suc.prems c by (intro Suc.hyps(1)) linarith+
  ultimately show ?case
    using c Suc.prems(1) by (subst nChunk_loop_pos) (simp_all add: half_gt_iff)
qed

lemma nChunk_loop_nonneg:
  "0 \<le> n \<Longrightarrow> 0 < m \<Longrightarrow>
     nChunk_loop n m 1 = (if n div m + 1 \<le> Int_t_max then Returns (n div m + 1) else Undefined)"
  by (rule nChunk_loop_from) (simp_all add: pos_imp_zdiv_nonneg_iff Int_t_max_def)

lemma nChunk_loop_negative: "n < 0 \<Longrightarrow> 0 < m \<Longrightarrow> nChunk_loop n m 1 = Returns 1"
  by (subst nChunk_loop_pos) (simp_all add: half_gt_iff signed_divide_int_def)

text \<open>
  Claim C1, as stated: the chunk count is the least positive integer with
  \<open>nEvtRun / nChunk \<le> maxEventsPerChunk\<close>, and an event count that is a multiple of the
  bound gives \<open>nEvtRun / maxEventsPerChunk\<close> chunks. It fails at 1000 events with at most
  500 per chunk: two chunks already hold 500 events each, and the quotient is 2, yet the
  loop returns 3, because \<open>500 + 0.5 > 500\<close> keeps it running.
\<close>

theorem nChunk_minimal_counterexample:
  "nChunk_loop 1000 500 1 = Returns 3 \<and> (1000::int) sdiv 2 \<le> 500 \<and> (1000::int) sdiv 500 = 2"
  by (simp add: nChunk_loop_nonneg signed_divide_int_def Int_t_max_def)

text \<open>
  Claim C1, amended: for every event count \<open>nEvtRun\<close> with \<open>0 < nEvtRun \<le> 2\<^sup>3\<^sup>1 - 1\<close> and
  every bound \<open>maxEventsPerChunk > 0\<close>, other than the largest count together with the
  bound 1, the loop returns, and the \<open>nChunk\<close> it returns is the least positive integer
  whose quotient \<open>nEvtRun / nChunk\<close> is strictly below the bound (so the quotient is also
  at most the bound). It equals \<open>nEvtRun / maxEventsPerChunk + 1\<close>: one more than the
  quotient, also when the bound divides the event count. With the largest count and the
  bound 1 the loop overflows \<open>nChunk\<close>.
\<close>

theorem nChunk_least_strictly_below:
  "(0 < nEvtRun \<and> nEvtRun \<le> Int_t_max \<and> 0 < maxEventsPerChunk
      \<and> (nEvtRun < Int_t_max \<or> 1 < maxEventsPerChunk)
    \<longrightarrow> (\<exists>nChunk. nChunk_loop nEvtRun maxEventsPerChunk 1 = Returns nChunk
          \<and> 0 < nChunk \<and> nChunk \<le> Int_t_max
          \<and> nEvtRun sdiv nChunk < maxEventsPerChunk
          \<and> nEvtRun sdiv nChunk \<le> maxEventsPerChunk
          \<and> (\<forall>c. 0 < c \<and> c < nChunk \<longrightarrow> maxEventsPerChunk \<le> nEvtRun sdiv c)
          \<and> nChunk = nEvtRun div maxEventsPerChunk + 1))
   \<and> nChunk_loop Int_t_max 1 1 = Undefined"
proof -
  have main: "\<exists>nChunk. nChunk_loop nEvtRun maxEventsPerChunk 1 = Returns nChunk
          \<and> 0 < nChunk \<and> nChunk \<le> Int_t_max
          \<and> nEvtRun sdiv nChunk < maxEventsPerChunk
          \<and> nEvtRun sdiv nChunk \<le> maxEventsPerChunk
          \<and> (\<forall>c. 0 < c \<and> c < nChunk \<longrightarrow> maxEventsPerChunk \<le> nEvtRun sdiv c)
          \<and> nChunk = nEvtRun div maxEventsPerChunk + 1"
    if h: "0 < nEvtRun" "nEvtRun \<le> Int_t_max" "0 < maxEventsPerChunk"
      "nEvtRun < Int_t_max \<or> 1 < maxEventsPerChunk"
  proof -
    let ?k = "nEvtRun div maxEventsPerChunk + 1"
    have n0: "0 \<le> nEvtRun" using h by simp
    have "nEvtRun div maxEventsPerChunk < Int_t_max"
    proof (cases "1 < maxEventsPerChunk")
      case True
      then have "nEvtRun div maxEventsPerChunk < nEvtRun"
        using h(1) by (intro int_div_less_self) simp_all
      then show ?thesis using h(2) by simp
    next
      case False
      then have "maxEventsPerChunk = 1" using h(3) by simp
      then show ?thesis using h(4) False by simp
    qed
    then have fits: "?k \<le> Int_t_max" by simp
    have ret: "nChunk_loop nEvtRun maxEventsPerChunk 1 = Returns ?k"
      using nChunk_loop_nonneg [OF n0 h(3)] fits by simp
    have pos: "0 < ?k"
      using n0 h(3) by (simp add: pos_imp_zdiv_nonneg_iff add_nonneg_pos)
    have below: "nEvtRun sdiv ?k < maxEventsPerChunk"
    proof -
      have "(maxEventsPerChunk \<le> nEvtRun div ?k) = (?k \<le> nEvtRun div maxEventsPerChunk)"
        using h(3) pos by (rule quotient_ge_iff)
      then have "\<not> maxEventsPerChunk \<le> nEvtRun div ?k" by simp
      then show ?thesis using n0 pos by (simp add: sdiv_nonneg_pos)
    qed
    have least: "maxEventsPerChunk \<le> nEvtRun sdiv c" if "0 < c" "c < ?k" for c
    proof -
      have "c \<le> nEvtRun div maxEventsPerChunk" using that by simp
      moreover have "(maxEventsPerChunk \<le> nEvtRun div c) = (c \<le> nEvtRun div maxEventsPerChunk)"
        using h(3) that(1) by (rule quotient_ge_iff)
      ultimately have "maxEventsPerChunk \<le> nEvtRun div c" by simp
      then show ?thesis using n0 that(1) by (simp add: sdiv_nonneg_pos)
    qed
    show ?thesis
      using ret pos fits below least by (intro exI [of _ ?k]) auto
  qed
  have over: "nChunk_loop Int_t_max 1 1 = Undefined"
    using nChunk_loop_nonneg [of Int_t_max 1] by (simp add: Int_t_max_def)
  show ?thesis using main over by blast
qed

theorem nChunk_least_strictly_below_witness:
  "nChunk_loop 1000 500 1 = Returns 3 \<and> (1000::int) sdiv 3 < 500"
proof -
  have "0 < (1000::int) \<and> (1000::int) \<le> Int_t_max \<and> 0 < (500::int)
      \<and> ((1000::int) < Int_t_max \<or> 1 < (500::int))"
    by (simp add: Int_t_max_def)
  with nChunk_least_strictly_below [of 1000 500] show ?thesis by auto
qed

section \<open>Cleaning the local files\<close>

lemma CleanLocal_loop_files:
  "files (CleanLocal_loop e False lfl w) p =
     (if p \<in> set (map (resolve e) (filter (\<lambda>f. \<not> Contains f ''OCDB_'') lfl)) then None
      else files w p)"
  by (induction e False lfl w rule: CleanLocal_loop.induct) (simp_all add: Unlink_def)

lemma CleanLocal_loop_rest:
  "gGrid (CleanLocal_loop e c lfl w) = gGrid w \<and> stdin (CleanLocal_loop e c lfl w) = stdin w
   \<and> actions (CleanLocal_loop e c lfl w) = actions w"
  by (induction e c lfl w rule: CleanLocal_loop.induct) (simp_all add: Unlink_def)

text \<open>
  Claim C8: with a local file list \<open>lfl\<close> of ordinary files and snapshot files (names
  containing \<open>OCDB_\<close>), \<^verbatim>\<open>CleanLocal(kFALSE)\<close> removes exactly the files named by the
  entries that are not snapshots: afterwards a path holds no file if such an entry names
  it, and holds what it held before otherwise. So every snapshot of the list is left as it
  was, as long as different names of the list name different files. Nothing else in the
  world changes.
\<close>

theorem CleanLocal_keeps_snapshots:
  assumes "LocalFileList e s = (lfl, s')" and "CleanLocal e s False w = (w', s'')"
  shows "files w' p =
           (if p \<in> set (map (resolve e) (filter (\<lambda>f. \<not> Contains f ''OCDB_'') lfl)) then None
            else files w p)
       \<and> (inj_on (resolve e) (set lfl) \<and> f \<in> set lfl \<and> Contains f ''OCDB_''
            \<longrightarrow> files w' (resolve e f) = files w (resolve e f))
       \<and> gGrid w' = gGrid w \<and> stdin w' = stdin w \<and> actions w' = actions w"
proof -
  have w': "w' = CleanLocal_loop e False lfl w"
    using assms by (simp add: CleanLocal_def)
  have c: "files w' (resolve e f) = files w (resolve e f)"
    if "inj_on (resolve e) (set lfl)" "f \<in> set lfl" "Contains f ''OCDB_''"
  proof -
    have "resolve e f \<notin> set (map (resolve e) (filter (\<lambda>f. \<not> Contains f ''OCDB_'') lfl))"
      using that by (auto dest: inj_onD)
    then show ?thesis by (simp only: w' CleanLocal_loop_files if_False)
  qed
  have a: "files w' p =
           (if p \<in> set (map (resolve e) (filter (\<lambda>f. \<not> Contains f ''OCDB_'') lfl)) then None
            else files w p)"
    by (simp only: w' CleanLocal_loop_files)
  have r: "gGrid w' = gGrid w \<and> stdin w' = stdin w \<and> actions w' = actions w"
    by (simp only: w' CleanLocal_loop_rest)
  show ?thesis using a c r by blast
qed

lemma cleaning_list:
  "LocalFileList sample_env cleaning_submitter =
     ([''Config.C'', ''/work/OCDB/1000/OCDB_sim.root'', ''sim.C''], cleaning_submitter)"
  by (simp add: LocalFileList_def cleaning_submitter_def sample_submitter_def)

theorem CleanLocal_keeps_snapshots_witness:
  "files (fst (CleanLocal sample_env cleaning_submitter False cleaning_world)) ''Config.C'' = None
   \<and> files (fst (CleanLocal sample_env cleaning_submitter False cleaning_world))
        ''/work/OCDB/1000/OCDB_sim.root'' = Some [''b'']"
proof -
  let ?r = "CleanLocal sample_env cleaning_submitter False cleaning_world"
  have c: "?r = (fst ?r, snd ?r)"
    by simp
  have i: "inj_on (resolve sample_env)
             (set [''Config.C'', ''/work/OCDB/1000/OCDB_sim.root'', ''sim.C''])"
    by (simp add: sample_env_def)
  have r: "resolve sample_env ''/work/OCDB/1000/OCDB_sim.root'' = ''/work/OCDB/1000/OCDB_sim.root''"
    by (simp add: sample_env_def)
  have f: "files cleaning_world ''/work/OCDB/1000/OCDB_sim.root'' = Some [''b'']"
    by (simp add: cleaning_world_def)
  have m: "''Config.C'' \<in> set (map (resolve sample_env) (filter (\<lambda>f. \<not> Contains f ''OCDB_'')
             [''Config.C'', ''/work/OCDB/1000/OCDB_sim.root'', ''sim.C'']))"
    by (simp add: sample_env_def)
  have o: "Contains ''/work/OCDB/1000/OCDB_sim.root'' ''OCDB_''"
    by simp
  from CleanLocal_keeps_snapshots [OF cleaning_list c, of "''Config.C''" "''/work/OCDB/1000/OCDB_sim.root''"]
  show ?thesis using i r f m o by simp
qed

section \<open>Variable substitution\<close>

text \<open>
  A loop over a line returns only if the line is not stuck, and then every pass has
  replaced something: the two counters have moved together.
\<close>

lemma replace_line_Some:
  assumes "replace_line vars sline nvars nreplaced = Some r"
  shows "\<not> stuck vars sline \<and> fst (snd r) - snd (snd r) = nvars - nreplaced"
proof (rule replace_line.raw_induct
    [where P = "\<lambda>vars sline nvars nreplaced r.
       \<not> stuck vars sline \<and> fst (snd r) - snd (snd r) = nvars - nreplaced", OF _ assms])
  fix f :: "(string \<times> string) list \<Rightarrow> string \<Rightarrow> int \<Rightarrow> int \<Rightarrow> (string \<times> int \<times> int) option"
  fix vars sline nvars nreplaced r
  assume IH: "\<And>vars sline nvars nreplaced r. f vars sline nvars nreplaced = Some r \<Longrightarrow>
      \<not> stuck vars sline \<and> fst (snd r) - snd (snd r) = nvars - nreplaced"
  assume body: "(if Contains sline ''VAR_'' \<and> \<not> BeginsWith sline ''//''
      then case find (\<lambda>kv. Contains sline (fst kv)) vars of
           None \<Rightarrow> f vars sline (nvars + 1) nreplaced
           | Some kv \<Rightarrow> f vars (ReplaceAll (fst kv) (snd kv) sline) (nvars + 1) (nreplaced + 1)
      else Some (sline, nvars, nreplaced)) = Some r"
  show "\<not> stuck vars sline \<and> fst (snd r) - snd (snd r) = nvars - nreplaced"
  proof (cases "Contains sline ''VAR_'' \<and> \<not> BeginsWith sline ''//''")
    case False
    with body show ?thesis by (auto simp: stuck_def)
  next
    case True
    show ?thesis
    proof (cases "find (\<lambda>kv. Contains sline (fst kv)) vars")
      case None
      with True body have "f vars sline (nvars + 1) nreplaced = Some r" by simp
      then have "\<not> stuck vars sline" using IH by blast
      with True None show ?thesis by (simp add: stuck_def)
    next
      case (Some kv)
      with True body have
        "f vars (ReplaceAll (fst kv) (snd kv) sline) (nvars + 1) (nreplaced + 1) = Some r" by simp
      then have "fst (snd r) - snd (snd r) = (nvars + 1) - (nreplaced + 1)"
        using IH by blast
      with Some show ?thesis by (simp add: stuck_def)
    qed
  qed
qed

lemma replace_line_stuck: "stuck vars sline \<Longrightarrow> replace_line vars sline nvars nreplaced = None"
  using replace_line_Some [of vars sline nvars nreplaced]
  by (cases "replace_line vars sline nvars nreplaced") auto

lemma replace_lines_Some:
  "replace_lines vars ls nvars nreplaced = Some (lines, nv, nr) \<Longrightarrow> nv - nr = nvars - nreplaced"
proof (induction ls arbitrary: nvars nreplaced lines nv nr)
  case Nil
  then show ?case by simp
next
  case (Cons l ls)
  from Cons.prems obtain sline nv1 nr1 lines' where
    a: "replace_line vars l nvars nreplaced = Some (sline, nv1, nr1)" and
    b: "replace_lines vars ls nv1 nr1 = Some (lines', nv, nr)"
    by (auto split: option.splits)
  from replace_line_Some [OF a] have "nv1 - nr1 = nvars - nreplaced" by simp
  moreover from Cons.IH [OF b] have "nv - nr = nv1 - nr1" .
  ultimately show ?case by simp
qed

lemma ReplaceVars_never_fails: "ReplaceVars e s file w = Returns (ok, w') \<Longrightarrow> ok"
  by (auto simp: ReplaceVars_def split: option.splits if_splits dest: replace_lines_Some)

text \<open>
  Claim C2 says that \<^verbatim>\<open>ReplaceVars\<close> terminates and returns failure when a token of the
  file has no mapping. The code checks \<open>nreplaced \<noteq> nvars\<close> for this, and never gets
  there: with the store of the sample object, which holds every name the constructor
  sets, the second line of the file holds \<open>VAR_FOO\<close>, no name of the store occurs in it,
  and the loop over this line does not end. By \<open>ReplaceVars_never_fails\<close> no call returns
  failure at all.
\<close>

theorem ReplaceVars_unmapped_token_diverges:
  "ReplaceVars sample_env sample_submitter ''/work/Config.C'' template_world = Diverges"
proof -
  let ?vars = "constructor_vars @ [(''VAR_GENERATOR'', ''GenParamCustom'')]"
  have l1: "replace_line ?vars ''generator = VAR_GENERATOR;'' 0 0
              = Some (''generator = GenParamCustom;'', 1, 1)"
    by code_simp
  have "stuck ?vars ''foo = VAR_FOO;''"
    by (simp add: stuck_def BeginsWith_def constructor_vars_def)
  then have l2: "replace_line ?vars ''foo = VAR_FOO;'' 1 1 = None"
    by (rule replace_line_stuck)
  have g: "getlines (read_file sample_env template_world ''/work/Config.C'')
             = [''generator = VAR_GENERATOR;'', ''foo = VAR_FOO;'']"
    by (simp add: getlines_def read_file_def sample_env_def template_world_def sample_world_def)
  have v: "fVars sample_submitter = ?vars"
    by (simp add: sample_submitter_def)
  show ?thesis
    by (simp add: ReplaceVars_def g v l1 l2)
qed

section \<open>Remote existence checks\<close>

lemma name_listed_entry:
  "name_listed dir res \<Longrightarrow>
     \<exists>m obj. TMap m \<in> set res \<and> map_of m ''name'' = Some obj \<and> GetName obj = dir"
  by (induction dir res rule: name_listed.induct) (auto split: option.splits if_splits)

text \<open>
  Claim C4, amended: \<^verbatim>\<open>RemoteDirectoryExists\<close> returns true only when an entry of the
  listing of the parent directory has a name equal to the base name of the path (stripped
  of trailing blanks and slashes) followed by a slash. \<^verbatim>\<open>RemoteFileExists\<close> compares no
  name: it returns true exactly when the listing of the path itself starts with an entry
  whose name is a non-empty string.
\<close>

theorem remote_existence_checks:
  "(RemoteDirectoryExists e w dirname \<longrightarrow>
      gGrid w \<and>
      (\<exists>res m obj.
         Ls e w (DirName e (Strip (CHR ''/'') (Strip (CHR '' '') dirname))) ''-F'' = Some res
         \<and> TMap m \<in> set res \<and> map_of m ''name'' = Some obj
         \<and> GetName obj = BaseName e (Strip (CHR ''/'') (Strip (CHR '' '') dirname)) @ ''/''))
   \<and> (RemoteFileExists e w lfn =
        (gGrid w \<and> (\<exists>m rest n. Ls e w lfn [] = Some (TMap m # rest)
                      \<and> map_of m ''name'' = Some (TObjString n) \<and> n \<noteq> [])))"
proof -
  have d: "gGrid w \<and>
      (\<exists>res m obj.
         Ls e w (DirName e (Strip (CHR ''/'') (Strip (CHR '' '') dirname))) ''-F'' = Some res
         \<and> TMap m \<in> set res \<and> map_of m ''name'' = Some obj
         \<and> GetName obj = BaseName e (Strip (CHR ''/'') (Strip (CHR '' '') dirname)) @ ''/'')"
    if "RemoteDirectoryExists e w dirname"
  proof -
    from that obtain res where g: "gGrid w"
      and l: "Ls e w (DirName e (Strip (CHR ''/'') (Strip (CHR '' '') dirname))) ''-F'' = Some res"
      and n: "name_listed (BaseName e (Strip (CHR ''/'') (Strip (CHR '' '') dirname)) @ ''/'') res"
      by (auto simp: RemoteDirectoryExists_def Let_def split: if_splits option.splits)
    from name_listed_entry [OF n] g l show ?thesis by blast
  qed
  have f: "RemoteFileExists e w lfn =
        (gGrid w \<and> (\<exists>m rest n. Ls e w lfn [] = Some (TMap m # rest)
                      \<and> map_of m ''name'' = Some (TObjString n) \<and> n \<noteq> []))"
  proof (cases "Ls e w lfn []")
    case None
    then show ?thesis by (simp add: RemoteFileExists_def)
  next
    case (Some res)
    show ?thesis
    proof (cases res)
      case Nil
      with Some show ?thesis by (simp add: RemoteFileExists_def)
    next
      case (Cons x rest)
      show ?thesis
      proof (cases x)
        case NotATMap
        with Some Cons show ?thesis by (simp add: RemoteFileExists_def)
      next
        case (TMap m)
        show ?thesis
        proof (cases "map_of m ''name''")
          case None
          with Some Cons TMap show ?thesis by (simp add: RemoteFileExists_def)
        next
          case (Some obj)
          with \<open>Ls e w lfn [] = Some res\<close> Cons TMap show ?thesis
            by (cases obj) (simp_all add: RemoteFileExists_def)
        qed
      qed
    qed
  qed
  show ?thesis using d f by blast
qed

text \<open>
  Claim C4, as stated, fails for \<^verbatim>\<open>RemoteFileExists\<close>: asked for \<^verbatim>\<open>/alice/sim/OCDB\<close>, whose
  listing is the entry \<^verbatim>\<open>1000\<close>, it returns true, and the base name is \<^verbatim>\<open>OCDB\<close>.
\<close>

theorem RemoteFileExists_other_name_counterexample: "RemoteFileExists listing_env sample_world ''/alice/sim/OCDB''
   \<and> Ls listing_env sample_world ''/alice/sim/OCDB'' [] = Some [TMap [(''name'', TObjString ''1000'')]]
   \<and> BaseName listing_env ''/alice/sim/OCDB'' = ''OCDB''"
  by (simp add: RemoteFileExists_def listing_env_def sample_env_def sample_world_def listing_def)

theorem remote_existence_checks_witness: "RemoteDirectoryExists listing_env sample_world ''/alice/sim/OCDB/ ''
   \<and> BaseName listing_env (Strip (CHR ''/'') (Strip (CHR '' '') ''/alice/sim/OCDB/ '')) @ ''/'' = ''OCDB/''
   \<and> \<not> RemoteFileExists listing_env sample_world ''/alice/sim/run.jdl''"
proof -
  have a: "RemoteDirectoryExists listing_env sample_world ''/alice/sim/OCDB/ ''"
    by (simp add: RemoteDirectoryExists_def listing_env_def sample_env_def sample_world_def listing_def Strip_def)
  have b: "BaseName listing_env (Strip (CHR ''/'') (Strip (CHR '' '') ''/alice/sim/OCDB/ '')) @ ''/'' = ''OCDB/''"
    by (simp add: listing_env_def sample_env_def Strip_def)
  have c: "Ls listing_env sample_world ''/alice/sim/run.jdl'' [] = None"
    by (simp add: listing_env_def sample_env_def)
  from remote_existence_checks [of listing_env sample_world "''/alice/sim/OCDB/ ''" "''/alice/sim/run.jdl''"]
  show ?thesis using a b c by simp
qed

section \<open>JDL keys\<close>

lemma Output_values_eq:
  "vs \<noteq> [] \<Longrightarrow> n = int (length vs) \<Longrightarrow>
     Output_values n vs =
       map (\<lambda>v. [CHR 0x09] @ quoted v @ '','') (butlast vs) @ [[CHR 0x09] @ quoted (last vs)]"
proof (induction vs arbitrary: n)
  case Nil
  then show ?case by simp
next
  case (Cons v vs)
  show ?case
  proof (cases "vs = []")
    case True
    with Cons.prems show ?thesis by simp
  next
    case False
    moreover have "n - 1 = int (length vs)" using Cons.prems by simp
    ultimately have "Output_values (n - 1) vs =
       map (\<lambda>v. [CHR 0x09] @ quoted v @ '','') (butlast vs) @ [[CHR 0x09] @ quoted (last vs)]"
      by (rule Cons.IH)
    moreover have "n - 1 \<noteq> 0" using Cons.prems False by simp
    ultimately show ?thesis using False by simp
  qed
qed

lemma isdigit_not_blank: "isdigit c \<Longrightarrow> c \<noteq> CHR '' ''"
  by (auto simp: isdigit_def)

lemma isdigit_not_space:
  "isdigit c \<Longrightarrow> c \<notin> set [CHR 0x09, CHR 0x0A, CHR 0x0B, CHR 0x0C, CHR 0x0D, CHR '' '']"
  by (auto simp: isdigit_def)

lemma isdigit_not_sign: "isdigit c \<Longrightarrow> c \<noteq> CHR ''-'' \<and> c \<noteq> CHR ''+''"
  by (auto simp: isdigit_def)

lemma atoi_digits:
  assumes "v \<noteq> []" "list_all isdigit v" "digits_value v < 2 ^ 31"
  shows "atoi v = Some (int (digits_value v))"
proof -
  obtain c cs where v: "v = c # cs" using assms(1) by (cases v) auto
  have c: "isdigit c" using assms(2) v by simp
  have d: "dropWhile (\<lambda>c. c \<in> set [CHR 0x09, CHR 0x0A, CHR 0x0B, CHR 0x0C, CHR 0x0D, CHR '' '']) v = v"
    using isdigit_not_space [OF c] by (simp only: v dropWhile.simps if_False)
  have h: "hd v \<noteq> CHR ''-''" "hd v \<noteq> CHR ''+''" 
    using isdigit_not_sign [OF c] by (simp_all add: v)
  have t: "takeWhile isdigit v = v"
    using assms(2) by (simp add: takeWhile_eq_all_conv list_all_iff)
  have r: "- (2 ^ 31) \<le> int (digits_value v) \<and> int (digits_value v) < 2 ^ 31"
    using assms(3) by simp
  have u: "(if v \<noteq> [] \<and> (hd v = CHR ''-'' \<or> hd v = CHR ''+'') then tl v else v) = v"
    using h by simp
  have n: "(v \<noteq> [] \<and> hd v = CHR ''-'') = False"
    using h by simp
  show ?thesis
    unfolding atoi_def d Let_def u t n using r by simp
qed

lemma digits_only:
  assumes "v \<noteq> []" "list_all isdigit v" "digits_value v < 2 ^ 31"
  shows "IsDigit v \<and> Atoi v = Some (int (digits_value v))"
proof -
  have "\<forall>c \<in> set v. c \<noteq> CHR '' ''"
    using assms(2) isdigit_not_blank by (auto simp: list_all_iff)
  then have f: "filter (\<lambda>c. c \<noteq> CHR '' '') v = v" by (simp add: filter_id_conv)
  have i: "IsDigit v"
    using assms(1,2) by (cases v) (auto simp: IsDigit_def list_all_iff)
  show ?thesis using i f atoi_digits [OF assms] by (simp add: Atoi_def)
qed

text \<open>
  Claim C7, amended: a single value made of digits and blanks, with a digit among them, is
  emitted as the unquoted integer its digits spell (so a value of digits only is emitted
  as its number); any other single value is emitted between double quotes; more than one
  value gives the key with an opening brace, one line per value with a tab and the quoted
  value, a comma after each but the last, and a closing brace with the semicolon. The
  number must fit \<open>Int_t\<close>.
\<close>

theorem Output_emission:
  "(v \<noteq> [] \<and> list_all isdigit v \<and> digits_value v < 2 ^ 31 \<longrightarrow>
      Output key [v] = Returns [key @ '' = '' @ show_int (int (digits_value v)) @ '';''])
   \<and> (IsDigit v \<and> Atoi v = Some i \<longrightarrow> Output key [v] = Returns [key @ '' = '' @ show_int i @ '';''])
   \<and> (\<not> IsDigit v \<longrightarrow> Output key [v] = Returns [key @ '' = '' @ quoted v @ '';''])
   \<and> (length values > 1 \<longrightarrow>
        Output key values =
          Returns ([key @ '' = {'']
                   @ map (\<lambda>v. [CHR 0x09] @ quoted v @ '','') (butlast values)
                   @ [[CHR 0x09] @ quoted (last values), ''};'']))"
proof -
  have a: "Output key [v] = Returns [key @ '' = '' @ show_int i @ '';'']"
    if "IsDigit v" "Atoi v = Some i" for i
    using that by (simp add: Output_def)
  have b: "Output key [v] = Returns [key @ '' = '' @ quoted v @ '';'']" if "\<not> IsDigit v"
    using that by (simp add: Output_def)
  have c: "Output key values =
          Returns ([key @ '' = {'']
                   @ map (\<lambda>v. [CHR 0x09] @ quoted v @ '','') (butlast values)
                   @ [[CHR 0x09] @ quoted (last values), ''};''])"
    if "length values > 1"
  proof -
    have "values \<noteq> []" using that by auto
    then have "Output_values (int (length values)) values =
       map (\<lambda>v. [CHR 0x09] @ quoted v @ '','') (butlast values) @ [[CHR 0x09] @ quoted (last values)]"
      by (rule Output_values_eq) simp
    then show ?thesis using that by (simp add: Output_def Let_def)
  qed
  have d: "Output key [v] = Returns [key @ '' = '' @ show_int (int (digits_value v)) @ '';'']"
    if "v \<noteq> []" "list_all isdigit v" "digits_value v < 2 ^ 31"
    using digits_only [OF that] a by blast
  show ?thesis using a b c d by blast
qed

theorem Output_emission_witness: "Output ''TTL'' [''7200''] = Returns [''TTL = 7200;'']
   \<and> Output ''Executable'' [''AOD_merge.sh''] = Returns [''Executable = '' @ quoted ''AOD_merge.sh'' @ '';'']
   \<and> Output ''JDLVariables'' [''Packages'', ''OutputDir'']
        = Returns [''JDLVariables = {'', [CHR 0x09] @ quoted ''Packages'' @ '','',
                   [CHR 0x09] @ quoted ''OutputDir'', ''};'']"
proof -
  have d: "digits_value ''7200'' = 7200" by (simp add: digits_value_def digit_val_def)
  have s: "show_int 7200 = ''7200''" by (simp add: show_int_def show_nat.simps digit_char_def)
  have n: "\<not> IsDigit ''AOD_merge.sh''" by (simp add: IsDigit_def isdigit_def)
  have i: "list_all isdigit ''7200''" by (simp add: isdigit_def)
  from Output_emission [of "''7200''" "''TTL''" 0 "[]"]
       Output_emission [of "''AOD_merge.sh''" "''Executable''" 0 "[]"]
       Output_emission [of "[]" "''JDLVariables''" 0 "[''Packages'', ''OutputDir'']"]
  show ?thesis using d s n i by simp
qed

text \<open>
  Claim C7, as stated, fails for a value that is not made of digits only: \<open>1 2\<close> is
  emitted as the unquoted number 12.
\<close>

theorem Output_blank_counterexample: "Output ''Price'' [''1 2''] = Returns [''Price = 12;''] \<and> \<not> list_all isdigit ''1 2''"
proof -
  have a: "IsDigit ''1 2''" by (simp add: IsDigit_def isdigit_def)
  have b: "Atoi ''1 2'' = Some 12" by (simp add: Atoi_def atoi_def isdigit_def digits_value_def digit_val_def)
  have s: "show_int 12 = ''12''" by (simp add: show_int_def show_nat.simps digit_char_def)
  have n: "\<not> list_all isdigit ''1 2''" by (simp add: isdigit_def)
  show ?thesis using a b s n by (simp add: Output_def)
qed

section \<open>Rounding and the scenario of two runs\<close>

lemma scenario_facts:
  "fMaxEventsPerChunk scenario_submitter = 600" "fIsValid scenario_submitter"
  "fScalers scenario_submitter = Some sample_scalers" "GetRunList sample_scalers = [1000, 1001]"
  "fRemoteDir scenario_submitter = ''/alice/sim''"
  "RunJDLName scenario_env = ''run.jdl''"
  "Ls scenario_env w ''run.jdl'' [] = Some (listing ''run.jdl'')"
  by (simp_all add: scenario_submitter_def sample_submitter_def sample_scalers_def
        scenario_env_def sample_env_def)

lemma Int_t_in_range: "Int_t_min \<le> i \<Longrightarrow> i \<le> Int_t_max \<Longrightarrow> Int_t i = Returns i"
  by (simp add: Int_t_def)

lemma Nint_of_int:
  assumes "Int_t_min \<le> k" "k \<le> Int_t_max"
  shows "Nint (of_int k) = Returns k"
proof (cases "0 \<le> k")
  case True
  have "\<lfloor>(of_int k :: rat) + 1 / 2\<rfloor> = k"
    by (rule floor_unique) simp_all
  moreover have "(of_int k :: rat) + 1 / 2 \<noteq> of_int k" by simp
  ultimately show ?thesis
    using True assms by (simp add: Nint_def Let_def Int_t_in_range bind_result_def)
next
  case False
  have "\<lceil>(of_int k :: rat) - 1 / 2\<rceil> = k"
    by (rule ceiling_unique) simp_all
  moreover have "(of_int k :: rat) - 1 / 2 \<noteq> of_int k" by simp
  ultimately show ?thesis
    using False assms by (simp add: Nint_def Let_def Int_t_in_range bind_result_def)
qed

lemma Nint_half:
  assumes "0 \<le> k" "k < Int_t_max"
  shows "Nint (of_int k + 1 / 2) = Returns (if even k then k else k + 1)"
proof -
  have x: "(0::rat) \<le> of_int k + 1 / 2" using assms by simp
  have e: "(of_int k :: rat) + 1 / 2 + 1 / 2 = of_int (k + 1)" by simp
  have f: "\<lfloor>(of_int k :: rat) + 1 / 2 + 1 / 2\<rfloor> = k + 1"
    by (simp only: e floor_of_int)
  have i: "Int_t (k + 1) = Returns (k + 1)"
    using assms by (intro Int_t_in_range) (simp_all add: Int_t_min_def)
  show ?thesis
    unfolding Nint_def f i bind_result_def using x by (simp only: e if_True) simp
qed

text \<open>An integer of less than 24 bits is a float.\<close>

lemma round_half_even_of_int: "round_half_even (of_int j) = j"
proof -
  have "\<lfloor>(of_int j :: rat) + 1 / 2\<rfloor> = j"
    by (rule floor_unique) simp_all
  moreover have "(of_int j :: rat) + 1 / 2 \<noteq> of_int j" by simp
  ultimately show ?thesis by (simp add: round_half_even_def Let_def)
qed

lemma Float_t_of_int:
  assumes "0 \<le> k" "k < 2 ^ 24"
  shows "Float_t (of_int k) = of_int k"
proof (cases "k = 0")
  case True
  then show ?thesis by (simp add: Float_t_def)
next
  case False
  with assms have pos: "0 < k" by simp
  then have one: "(1::rat) \<le> of_int k" by simp
  have b: "binade \<bar>of_int k\<bar> = bitlen k - 1"
    using pos one by (simp add: binade_def)
  have "bitlen k \<le> 24"
    using assms(2) pos by (simp add: bitlen_le_iff_power)
  then have e: "bitlen k - 1 - 23 \<le> 0" by simp
  define n where "n = nat (- (bitlen k - 1 - 23))"
  have r: "round_half_even (of_int k * 2 ^ n) = k * 2 ^ n"
    using round_half_even_of_int [of "k * 2 ^ n"] by simp
  show ?thesis
  proof (cases "bitlen k - 1 - 23 = 0")
    case True
    then show ?thesis
      using pos b round_half_even_of_int [of k] by (simp add: Float_t_def Let_def)
  next
    case False
    with e have "\<not> 0 \<le> bitlen k - 1 - 23" by simp
    then show ?thesis
      using pos b r by (simp add: Float_t_def Let_def n_def)
  qed
qed

lemma scenario_floats:
  "Float_t 500 = 500" "Float_t 800 = 800" "Float_t 1000 = 1000" "Float_t 1600 = 1600"
  using Float_t_of_int [of 500] Float_t_of_int [of 800] Float_t_of_int [of 1000]
    Float_t_of_int [of 1600]
  by simp_all

lemma scenario_events:
  "run_events scenario_submitter sample_scalers 1000 = Some (Returns 1000)"
  "run_events scenario_submitter sample_scalers 1001 = Some (Returns 1600)"
  using Nint_of_int [of 1000] Nint_of_int [of 1600]
  by (simp_all add: run_events_def scenario_submitter_def sample_submitter_def sample_scalers_def
        scenario_floats Int_t_min_def Int_t_max_def)

lemma scenario_chunks:
  "nChunk_loop 1000 600 1 = Returns 2" "nChunk_loop 1600 600 1 = Returns 3"
  by (simp_all add: nChunk_loop_nonneg Int_t_max_def)

lemma scenario_chunk_events:
  "Nint (1001 / 2) = Returns 500" "Nint (1067 / 2) = Returns 534"
  using Nint_half [of 500] Nint_half [of 533] by (simp_all add: Int_t_max_def)

lemma scenario_Int_t:
  "Int_t 2 = Returns 2" "Int_t 5 = Returns 5" "Int_t 1000 = Returns 1000"
  "Int_t 1602 = Returns 1602" "Int_t 2602 = Returns 2602"
  by (simp_all add: Int_t_def Int_t_min_def Int_t_max_def)

lemma show_int_values:
  "show_int 1000 = ''1000''" "show_int 1001 = ''1001''" "show_int 2 = ''2''" "show_int 3 = ''3''"
  "show_int 500 = ''500''" "show_int 534 = ''534''" "show_int 5 = ''5''" "show_int 2602 = ''2602''"
  by (simp_all add: show_int_def show_nat.simps digit_char_def)

lemmas scenario_Submit_defs =
  Submit_def RemoteFileExists_def listing_def scenario_facts scenario_events scenario_chunks
  scenario_chunk_events scenario_Int_t log_def sample_world_def bind_result_def Submit_run_def
  Submit_command_def submit_query_def show_int_values signed_divide_int_def Let_def

text \<open>
  Claim C6: with the runs 1000 and 1001, ratio 2, 500 and 800 reference triggers and at
  most 600 events per chunk, \<^verbatim>\<open>Submit\<close> computes 1000 events, 2 chunks and 500 events per
  chunk for run 1000, and 1600 events, 3 chunks and 534 events per chunk for run 1001; it
  returns 5 jobs and sends the two commands with these numbers.
\<close>

theorem Submit_two_runs_scenario:
  "run_events scenario_submitter sample_scalers 1000 = Some (Returns 1000)
   \<and> nChunk_loop 1000 600 1 = Returns 2
   \<and> Nint (of_int (1000 sdiv 2) + 1 / 2) = Returns 500
   \<and> run_events scenario_submitter sample_scalers 1001 = Some (Returns 1600)
   \<and> nChunk_loop 1600 600 1 = Returns 3
   \<and> Nint (of_int (1600 sdiv 3) + 1 / 2) = Returns 534
   \<and> (case Submit scenario_env scenario_submitter False sample_world of
         Returns (nJobs, w) \<Rightarrow>
           nJobs = 5
           \<and> commands (actions w) = [(''submit run.jdl 1000 2 500'', Some ''42''),
                                      (''submit run.jdl 1001 3 534'', Some ''42'')]
       | Undefined \<Rightarrow> False
       | Diverges \<Rightarrow> False)"
proof -
  have n1: "Nint (of_int (1000 sdiv 2) + 1 / 2) = Returns 500"
    using Nint_half [of 500] by (simp add: signed_divide_int_def Int_t_max_def)
  have n2: "Nint (of_int (1600 sdiv 3) + 1 / 2) = Returns 534"
    using Nint_half [of 533] by (simp add: signed_divide_int_def Int_t_max_def)
  have e: "\<And>w q. Command scenario_env w q = Some ''42''"
    by (simp add: scenario_env_def sample_env_def)
  have s: "(case Submit scenario_env scenario_submitter False sample_world of
         Returns (nJobs, w) \<Rightarrow>
           nJobs = 5
           \<and> commands (actions w) = [(''submit run.jdl 1000 2 500'', Some ''42''),
                                      (''submit run.jdl 1001 3 534'', Some ''42'')]
       | Undefined \<Rightarrow> False
       | Diverges \<Rightarrow> False)"
    by (simp add: scenario_Submit_defs e)
  show ?thesis using scenario_events scenario_chunks n1 n2 s by blast
qed

theorem Submit_two_runs_scenario_witness:
  "nChunk_loop 1600 600 1 = Returns 3 \<and> Nint (of_int (1600 sdiv 3) + 1 / 2) = Returns 534"
  using Submit_two_runs_scenario by blast

section \<open>The job count of \<^verbatim>\<open>Submit\<close>\<close>

lemma commands_append: "commands (as @ bs) = commands as @ commands bs"
  by (induction as rule: commands.induct) simp_all

lemma commands_log: "commands (actions (log a w)) = commands (actions w) @ commands [a]"
  by (simp add: log_def commands_append)

lemma Submit_command_dry: "commands (actions (Submit_command e True query w)) = commands (actions w)"
  by (simp add: Submit_command_def commands_log)


text \<open>What a body of the loop that returns has computed.\<close>

lemma Submit_run_Returns:
  assumes "Submit_run e s dryRun run k (nJobs, nEvts, w) = Returns (nJobs', nEvts', w')"
  shows "\<exists>nChunk nEvtChunk. nChunk_loop k (fMaxEventsPerChunk s) 1 = Returns nChunk
        \<and> Nint (of_int (k sdiv nChunk) + 1 / 2) = Returns nEvtChunk
        \<and> nJobs' = nJobs + nChunk \<and> nEvts' = nEvts + nChunk * nEvtChunk
        \<and> w' = Submit_command e dryRun (submit_query e run nChunk nEvtChunk)
                 (log (Stdout (show_int run @ [CHR 0x09] @ show_int nChunk @ [CHR 0x09]
                    @ show_int nEvtChunk @ endl)) w)"
  using assms
  by (auto simp: Submit_run_def bind_result_def Int_t_def Let_def split: result.splits if_splits)

lemma Submit_run_counts_same:
  "loop_counts (Submit_run e s dryRun run k (nJobs, nEvts, w))
     = loop_counts (Submit_run e' s dryRun' run k (nJobs, nEvts, w2))"
  by (simp add: Submit_run_def bind_result_def loop_counts_def Let_def split: result.splits)

lemma counted_iff: "counted s sc run = (run_events s sc run \<noteq> None)"
  by (auto simp: counted_def run_events_def split: option.splits)

lemma Submit_loop_step:
  assumes "Submit_loop e s sc dryRun (run # runs) (nJobs, nEvts, w) = Returns st"
    and "counted s sc run"
  shows "\<exists>k nJobs1 nEvts1 w1. run_events s sc run = Some (Returns k)
        \<and> Submit_run e s dryRun run k (nJobs, nEvts, w) = Returns (nJobs1, nEvts1, w1)
        \<and> Submit_loop e s sc dryRun runs (nJobs1, nEvts1, w1) = Returns st"
proof -
  from assms(2) obtain r where r: "run_events s sc run = Some r"
    by (auto simp: counted_iff)
  with assms(1) obtain k where k: "r = Returns k"
    by (cases r) (simp_all add: bind_result_def)
  with assms(1) r obtain st1 where
    st1: "Submit_run e s dryRun run k (nJobs, nEvts, w) = Returns st1"
    by (cases "Submit_run e s dryRun run k (nJobs, nEvts, w)") (simp_all add: bind_result_def)
  obtain nJobs1 nEvts1 w1 where p: "st1 = (nJobs1, nEvts1, w1)"
    by (cases st1) auto
  from assms(1) r k st1 have "Submit_loop e s sc dryRun runs st1 = Returns st"
    by (simp add: bind_result_def)
  with r k st1 p show ?thesis by auto
qed

lemma chunks_eq:
  "run_events s sc run = Some (Returns k) \<Longrightarrow> nChunk_loop k (fMaxEventsPerChunk s) 1 = Returns nChunk
     \<Longrightarrow> chunks s sc run = nChunk"
  by (simp add: chunks_def)


lemma Submit_loop_jobs:
  "Submit_loop e s sc dryRun runs (nJobs, nEvts, w) = Returns (nJobs', nEvts', w') \<Longrightarrow>
     nJobs' = nJobs + sum_list (map (chunks s sc) (filter (counted s sc) runs))"
proof (induction runs arbitrary: nJobs nEvts w)
  case Nil
  then show ?case by simp
next
  case (Cons run runs)
  show ?case
  proof (cases "counted s sc run")
    case False
    then have "run_events s sc run = None" by (simp add: counted_iff)
    with False Cons show ?thesis by simp
  next
    case True
    from Submit_loop_step [OF Cons.prems True] obtain k nJobs1 nEvts1 w1 where
      k: "run_events s sc run = Some (Returns k)" and
      b: "Submit_run e s dryRun run k (nJobs, nEvts, w) = Returns (nJobs1, nEvts1, w1)" and
      l: "Submit_loop e s sc dryRun runs (nJobs1, nEvts1, w1) = Returns (nJobs', nEvts', w')"
      by blast
    from Submit_run_Returns [OF b] obtain nChunk where
      "nChunk_loop k (fMaxEventsPerChunk s) 1 = Returns nChunk" "nJobs1 = nJobs + nChunk"
      by blast
    with k have "chunks s sc run = nChunk" "nJobs1 = nJobs + nChunk"
      by (simp_all add: chunks_eq)
    with Cons.IH [OF l] True show ?thesis by simp
  qed
qed


lemma Submit_loop_dry:
  "Submit_loop e s sc True runs (nJobs, nEvts, w) = Returns (nJobs', nEvts', w') \<Longrightarrow>
     commands (actions w') = commands (actions w)"
proof (induction runs arbitrary: nJobs nEvts w)
  case Nil
  then show ?case by simp
next
  case (Cons run runs)
  show ?case
  proof (cases "counted s sc run")
    case False
    then have "run_events s sc run = None" by (simp add: counted_iff)
    with False Cons show ?thesis by simp
  next
    case True
    from Submit_loop_step [OF Cons.prems True] obtain k nJobs1 nEvts1 w1 where
      b: "Submit_run e s True run k (nJobs, nEvts, w) = Returns (nJobs1, nEvts1, w1)" and
      l: "Submit_loop e s sc True runs (nJobs1, nEvts1, w1) = Returns (nJobs', nEvts', w')"
      by blast
    from Submit_run_Returns [OF b] have "commands (actions w1) = commands (actions w)"
      by (auto simp: Submit_command_dry commands_log)
    with Cons.IH [OF l] show ?thesis by simp
  qed
qed

text \<open>The counts do not depend on the Grid, on the dry-run flag or on the world.\<close>

lemma Submit_loop_counts_same:
  "loop_counts (Submit_loop e s sc dryRun runs (nJobs, nEvts, w))
     = loop_counts (Submit_loop e' s sc dryRun' runs (nJobs, nEvts, w2))"
proof (induction runs arbitrary: nJobs nEvts w w2)
  case Nil
  then show ?case by (simp add: loop_counts_def)
next
  case (Cons run runs)
  show ?case
  proof (cases "run_events s sc run")
    case None
    with Cons.IH show ?thesis by simp
  next
    case (Some r)
    show ?thesis
    proof (cases r)
      case (Returns k)
      let ?a = "Submit_run e s dryRun run k (nJobs, nEvts, w)"
      let ?b = "Submit_run e' s dryRun' run k (nJobs, nEvts, w2)"
      have same: "loop_counts ?a = loop_counts ?b"
        by (rule Submit_run_counts_same)
      show ?thesis
      proof (cases ?a)
        case a: (Returns st1)
        obtain nJobs1 nEvts1 w1 where p: "st1 = (nJobs1, nEvts1, w1)" by (cases st1) auto
        from same a p obtain w1' where b: "?b = Returns (nJobs1, nEvts1, w1')"
          by (cases ?b) (auto simp: loop_counts_def)
        from Some Returns a p b Cons.IH [of nJobs1 nEvts1 w1 w1'] show ?thesis
          by (simp add: bind_result_def)
      next
        case a: Undefined
        with same have "?b = Undefined"
          by (cases ?b) (auto simp: loop_counts_def)
        with Some Returns a show ?thesis by (simp add: bind_result_def loop_counts_def)
      next
        case a: Diverges
        with same have "?b = Diverges"
          by (cases ?b) (auto simp: loop_counts_def)
        with Some Returns a show ?thesis by (simp add: bind_result_def loop_counts_def)
      qed
    next
      case Undefined
      with Some show ?thesis by (simp add: bind_result_def loop_counts_def)
    next
      case Diverges
      with Some show ?thesis by (simp add: bind_result_def loop_counts_def)
    qed
  qed
qed

lemma loop_jobs_counts: "loop_counts r = loop_counts r' \<Longrightarrow> loop_jobs r = loop_jobs r'"
  by (cases r; cases r') (auto simp: loop_counts_def loop_jobs_def)

lemma Submit_loop_jobs_same:
  "loop_jobs (Submit_loop e s sc dryRun runs (nJobs, nEvts, w))
     = loop_jobs (Submit_loop e' s sc dryRun' runs (nJobs, nEvts, w2))"
  by (rule loop_jobs_counts) (rule Submit_loop_counts_same)

text \<open>
  A body of the loop on a count \<open>k \<ge> 0\<close> with a positive bound: there are
  \<open>k div m + 1\<close> chunks of at most \<open>k div nChunk + 1\<close> events, so that the chunks hold at
  most \<open>k + nChunk\<close> events together.
\<close>

lemma mult_div_le_int: "0 < (c::int) \<Longrightarrow> c * (k div c) \<le> k"
proof -
  assume "0 < c"
  then have "0 \<le> k mod c" by simp
  moreover have "k = c * (k div c) + k mod c" by simp
  ultimately show ?thesis by linarith
qed

lemma Submit_run_in_range:
  assumes m: "0 < fMaxEventsPerChunk s" and k: "0 \<le> k"
    and j: "0 \<le> nJobs" "nJobs + (k + (k div fMaxEventsPerChunk s + 1)) \<le> Int_t_max"
    and v: "0 \<le> nEvts" "nEvts + (k + (k div fMaxEventsPerChunk s + 1)) \<le> Int_t_max"
  shows "\<exists>nEvts' w'. Submit_run e s dryRun run k (nJobs, nEvts, w)
            = Returns (nJobs + (k div fMaxEventsPerChunk s + 1), nEvts', w')
        \<and> nChunk_loop k (fMaxEventsPerChunk s) 1 = Returns (k div fMaxEventsPerChunk s + 1)
        \<and> 0 \<le> nEvts' \<and> nEvts' \<le> nEvts + (k + (k div fMaxEventsPerChunk s + 1))"
proof -
  define c where "c = k div fMaxEventsPerChunk s + 1"
  define q where "q = k div c"
  have c0: "0 < c"
    using m k by (simp add: c_def pos_imp_zdiv_nonneg_iff add_nonneg_pos)
  have cmax: "c \<le> Int_t_max" using j k c0 by (simp add: c_def)
  have loop: "nChunk_loop k (fMaxEventsPerChunk s) 1 = Returns c"
    using nChunk_loop_nonneg [OF k m] cmax by (simp add: c_def)
  have sq: "k sdiv c = q"
    using k c0 by (simp add: sdiv_nonneg_pos q_def)
  have q0: "0 \<le> q"
    using k c0 by (simp add: q_def pos_imp_zdiv_nonneg_iff)
  have cq: "c * q \<le> k"
    unfolding q_def using c0 by (rule mult_div_le_int)
  have "q \<le> c * q" using c0 q0 by (simp add: mult_le_cancel_right1)
  then have qk: "q \<le> k" using cq by simp
  have "k < Int_t_max" using j c0 by (simp add: c_def)
  then have qmax: "q < Int_t_max" using qk by simp
  define n where "n = (if even q then q else q + 1)"
  have nint: "Nint (of_int q + 1 / 2) = Returns n"
    unfolding n_def using q0 qmax by (rule Nint_half)
  have n0: "0 \<le> n" "n \<le> q + 1" using q0 by (simp_all add: n_def)
  have p0: "0 \<le> c * n" using c0 n0 by simp
  have "c * n \<le> c * (q + 1)" using c0 n0 by (simp add: mult_left_mono)
  also have "\<dots> = c * q + c" by (simp add: algebra_simps)
  also have "\<dots> \<le> k + c" using cq by simp
  finally have p1: "c * n \<le> k + c" .
  have i1: "Int_t (nJobs + c) = Returns (nJobs + c)"
    using j c0 k by (intro Int_t_in_range) (simp_all add: c_def Int_t_min_def)
  have i2: "Int_t (c * n) = Returns (c * n)"
    using p0 p1 v by (intro Int_t_in_range) (simp_all add: c_def Int_t_min_def)
  have i3: "Int_t (nEvts + c * n) = Returns (nEvts + c * n)"
    using p0 p1 v by (intro Int_t_in_range) (simp_all add: c_def Int_t_min_def)
  have "\<exists>w'. Submit_run e s dryRun run k (nJobs, nEvts, w) = Returns (nJobs + c, nEvts + c * n, w')"
    by (simp add: Submit_run_def loop sq nint i1 i2 i3 bind_result_def Let_def)
  then show ?thesis
    using loop p0 p1 v unfolding c_def [symmetric] by auto
qed

lemma Submit_loop_returns:
  assumes m: "0 < fMaxEventsPerChunk s"
  shows "(\<forall>run \<in> set runs. counted s sc run \<longrightarrow>
            run_events s sc run = Some (Returns (events s sc run)) \<and> 0 \<le> events s sc run)
     \<Longrightarrow> 0 \<le> nJobs \<Longrightarrow> 0 \<le> nEvts
     \<Longrightarrow> nJobs + sum_list (map (\<lambda>run. events s sc run + (events s sc run div fMaxEventsPerChunk s + 1))
                           (filter (counted s sc) runs)) \<le> Int_t_max
     \<Longrightarrow> nEvts + sum_list (map (\<lambda>run. events s sc run + (events s sc run div fMaxEventsPerChunk s + 1))
                           (filter (counted s sc) runs)) \<le> Int_t_max
     \<Longrightarrow> \<exists>nJobs' nEvts' w'.
           Submit_loop e s sc dryRun runs (nJobs, nEvts, w) = Returns (nJobs', nEvts', w')"
proof (induction runs arbitrary: nJobs nEvts w)
  case Nil
  then show ?case by simp
next
  case (Cons run runs)
  let ?S = "sum_list (map (\<lambda>run. events s sc run + (events s sc run div fMaxEventsPerChunk s + 1))
              (filter (counted s sc) runs))"
  have rest: "\<forall>run \<in> set runs. counted s sc run \<longrightarrow>
            run_events s sc run = Some (Returns (events s sc run)) \<and> 0 \<le> events s sc run"
    using Cons.prems(1) by simp
  have S0: "0 \<le> ?S"
  proof -
    have "0 \<le> events s sc r + (events s sc r div fMaxEventsPerChunk s + 1)"
      if "r \<in> set runs" "counted s sc r" for r
    proof -
      from rest that have "0 \<le> events s sc r" by auto
      then show ?thesis using m by (simp add: pos_imp_zdiv_nonneg_iff)
    qed
    then show ?thesis by (intro sum_list_nonneg) auto
  qed
  show ?case
  proof (cases "counted s sc run")
    case False
    then have "run_events s sc run = None" by (simp add: counted_iff)
    with False Cons.IH [OF rest Cons.prems(2,3)] Cons.prems(4,5) show ?thesis by simp
  next
    case True
    define k where "k = events s sc run"
    from True Cons.prems(1) have ev: "run_events s sc run = Some (Returns k)" and k0: "0 \<le> k"
      by (simp_all add: k_def)
    define c where "c = k div fMaxEventsPerChunk s + 1"
    have c0: "0 < c"
      using m k0 by (simp add: c_def pos_imp_zdiv_nonneg_iff add_nonneg_pos)
    have bj: "nJobs + (k + c) + ?S \<le> Int_t_max"
      using Cons.prems(4) True by (simp add: k_def c_def algebra_simps)
    have bv: "nEvts + (k + c) + ?S \<le> Int_t_max"
      using Cons.prems(5) True by (simp add: k_def c_def algebra_simps)
    have "nJobs + (k + (k div fMaxEventsPerChunk s + 1)) \<le> Int_t_max"
      "nEvts + (k + (k div fMaxEventsPerChunk s + 1)) \<le> Int_t_max"
      using bj bv S0 by (simp_all add: c_def)
    from Submit_run_in_range [OF m k0 Cons.prems(2) this(1) Cons.prems(3) this(2), of e dryRun run w]
    obtain nEvts1 w1 where
      b: "Submit_run e s dryRun run k (nJobs, nEvts, w) = Returns (nJobs + c, nEvts1, w1)"
      and r: "0 \<le> nEvts1" "nEvts1 \<le> nEvts + (k + c)"
      unfolding c_def by blast
    have "0 \<le> nJobs + c" using Cons.prems(2) c0 by simp
    moreover have "nJobs + c + ?S \<le> Int_t_max" using bj k0 by simp
    moreover have "nEvts1 + ?S \<le> Int_t_max" using bv r by simp
    ultimately obtain nJobs' nEvts' w' where
      "Submit_loop e s sc dryRun runs (nJobs + c, nEvts1, w1) = Returns (nJobs', nEvts', w')"
      using Cons.IH [OF rest _ r(1), of "nJobs + c" w1] by blast
    with ev b show ?thesis by (simp add: bind_result_def)
  qed
qed

lemma RemoteFileExists_Command: "RemoteFileExists (e\<lparr>Command := c\<rparr>) w lfn = RemoteFileExists e w lfn"
  by (simp add: RemoteFileExists_def)

lemma returned_bind_loop:
  "returned (bind_result r (\<lambda>(nJobs, nEvts, w). Returns (nJobs, f nJobs nEvts w))) = loop_jobs r"
  by (cases r) (auto simp: returned_def loop_jobs_def bind_result_def)

lemma Submit_returned:
  "returned (Submit e s dryRun w) =
     (if \<not> fIsValid s then Returns 0
      else if \<not> gGrid w then Undefined
      else if \<not> RemoteFileExists e (log (GridCd (fRemoteDir s)) w) (RunJDLName e) then Returns 0
      else (case fScalers s of
              None \<Rightarrow> Returns 0
            | Some sc \<Rightarrow>
                if GetRunList sc = [] then Returns 0
                else loop_jobs (Submit_loop e s sc dryRun (GetRunList sc) (0, 0,
                       log (Stdout (''----------------------'' @ endl))
                         (log (Stdout (''run'' @ [CHR 0x09] @ ''chunks'' @ [CHR 0x09] @ ''events'' @ endl))
                           (log (GridCd (fRemoteDir s)) w))))))"
  by (simp add: Submit_def Let_def returned_bind_loop split: option.splits)
     (simp add: returned_def)

lemma Submit_Returns_loop:
  assumes "Submit e s dryRun w = Returns (n, w')"
    and "fIsValid s" "RemoteFileExists e (log (GridCd (fRemoteDir s)) w) (RunJDLName e)"
      "fScalers s = Some sc" "GetRunList sc \<noteq> []"
  shows "\<exists>nEvts w4. Submit_loop e s sc dryRun (GetRunList sc) (0, 0,
             log (Stdout (''----------------------'' @ endl))
               (log (Stdout (''run'' @ [CHR 0x09] @ ''chunks'' @ [CHR 0x09] @ ''events'' @ endl))
                 (log (GridCd (fRemoteDir s)) w))) = Returns (n, nEvts, w4)
        \<and> commands (actions w') = commands (actions w4)"
  using assms
  by (auto simp: Submit_def Let_def bind_result_def commands_log split: if_splits result.splits)

text \<open>
  Claim C10, amended: the value \<^verbatim>\<open>Submit\<close> returns does not depend on the replies to the
  submission commands nor on the dry-run flag, and a dry run sends no command. When the
  checks before the loop pass (valid object, Grid handle, run JDL on the Grid, a run list
  that is not empty), a call of \<^verbatim>\<open>Submit\<close> that returns, returns the sum of the chunk counts
  over the runs it does not skip: in ratio mode the runs with a scaler item for the
  reference trigger, in fixed-count mode every run. And it does return when the bound per
  chunk is positive, every such run has an event count that is defined (in ratio mode the
  rounded product is an \<open>Int_t\<close>) and not negative, and the event counts of these runs
  together with their chunk counts \<open>events / bound + 1\<close> add up to at most \<open>2\<^sup>3\<^sup>1 - 1\<close>, so
  that no sum of the loop leaves \<open>Int_t\<close>.
\<close>

theorem Submit_job_count:
  "returned (Submit (e\<lparr>Command := c\<rparr>) s dryRun w) = returned (Submit e s True w)
   \<and> (Submit e s True w = Returns (n, w') \<longrightarrow> commands (actions w') = commands (actions w))
   \<and> (fIsValid s \<and> gGrid w \<and> RemoteFileExists e (log (GridCd (fRemoteDir s)) w) (RunJDLName e)
        \<and> fScalers s = Some sc \<and> GetRunList sc \<noteq> []
      \<longrightarrow> (Submit e s dryRun w = Returns (n, w')
            \<longrightarrow> n = sum_list (map (chunks s sc) (filter (counted s sc) (GetRunList sc))))
        \<and> (0 < fMaxEventsPerChunk s
            \<and> (\<forall>run \<in> set (GetRunList sc). counted s sc run \<longrightarrow>
                  (\<exists>k. 0 \<le> k \<and> run_events s sc run = Some (Returns k)))
            \<and> sum_list (map (\<lambda>run. events s sc run + (events s sc run div fMaxEventsPerChunk s + 1))
                  (filter (counted s sc) (GetRunList sc))) \<le> Int_t_max
           \<longrightarrow> returned (Submit e s dryRun w)
                 = Returns (sum_list (map (chunks s sc) (filter (counted s sc) (GetRunList sc))))))"
proof -
  let ?w3 = "log (Stdout (''----------------------'' @ endl))
               (log (Stdout (''run'' @ [CHR 0x09] @ ''chunks'' @ [CHR 0x09] @ ''events'' @ endl))
                 (log (GridCd (fRemoteDir s)) w))"
  let ?sum = "sum_list (map (chunks s sc) (filter (counted s sc) (GetRunList sc)))"
  have a: "returned (Submit (e\<lparr>Command := c\<rparr>) s dryRun w) = returned (Submit e s True w)"
    unfolding Submit_returned
    by (simp add: RemoteFileExists_Command Submit_loop_jobs_same [of "e\<lparr>Command := c\<rparr>" s _ dryRun _ _ _ _ e True]
          split: option.splits)
  have b: "commands (actions w') = commands (actions w)" if "Submit e s True w = Returns (n, w')"
    using that
    by (auto simp: Submit_def Let_def bind_result_def commands_log
          split: if_splits option.splits result.splits dest!: Submit_loop_dry)
  have d: "n = ?sum"
    if "fIsValid s" "RemoteFileExists e (log (GridCd (fRemoteDir s)) w) (RunJDLName e)"
       "fScalers s = Some sc" "GetRunList sc \<noteq> []" "Submit e s dryRun w = Returns (n, w')"
  proof -
    from Submit_Returns_loop [OF that(5) that(1-4)] obtain nEvts w4 where
      "Submit_loop e s sc dryRun (GetRunList sc) (0, 0, ?w3) = Returns (n, nEvts, w4)"
      by blast
    from Submit_loop_jobs [OF this] show ?thesis by simp
  qed
  have t: "returned (Submit e s dryRun w) = Returns ?sum"
    if g: "fIsValid s" "gGrid w" "RemoteFileExists e (log (GridCd (fRemoteDir s)) w) (RunJDLName e)"
       "fScalers s = Some sc" "GetRunList sc \<noteq> []"
      and m: "0 < fMaxEventsPerChunk s"
      and ev: "\<forall>run \<in> set (GetRunList sc). counted s sc run \<longrightarrow>
                  (\<exists>k. 0 \<le> k \<and> run_events s sc run = Some (Returns k))"
      and fit: "sum_list (map (\<lambda>run. events s sc run + (events s sc run div fMaxEventsPerChunk s + 1))
                  (filter (counted s sc) (GetRunList sc))) \<le> Int_t_max"
  proof -
    have ev': "\<forall>run \<in> set (GetRunList sc). counted s sc run \<longrightarrow>
            run_events s sc run = Some (Returns (events s sc run)) \<and> 0 \<le> events s sc run"
      using ev by (auto simp: events_def)
    from Submit_loop_returns [OF m ev', of 0 0 e dryRun ?w3] fit obtain nJobs' nEvts' w4 where
      l: "Submit_loop e s sc dryRun (GetRunList sc) (0, 0, ?w3) = Returns (nJobs', nEvts', w4)"
      by auto
    from Submit_loop_jobs [OF l] have "nJobs' = ?sum" by simp
    then show ?thesis
      using g l by (simp add: Submit_returned loop_jobs_def)
  qed
  show ?thesis using a b d t by blast
qed

theorem Submit_job_count_witness:
  "returned (Submit scenario_env scenario_submitter False sample_world) = Returns 5
   \<and> returned (Submit scenario_env scenario_submitter True sample_world) = Returns 5"
proof -
  have c: "counted scenario_submitter sample_scalers 1000" "counted scenario_submitter sample_scalers 1001"
    by (simp_all add: counted_def scenario_submitter_def sample_submitter_def sample_scalers_def)
  have k: "chunks scenario_submitter sample_scalers 1000 = 2" "chunks scenario_submitter sample_scalers 1001 = 3"
    by (simp_all add: chunks_def scenario_events scenario_facts scenario_chunks)
  have v: "events scenario_submitter sample_scalers 1000 = 1000"
    "events scenario_submitter sample_scalers 1001 = 1600"
    by (simp_all add: events_def scenario_events)
  have g: "gGrid sample_world" by (simp add: sample_world_def)
  have f: "RemoteFileExists scenario_env (log (GridCd (fRemoteDir scenario_submitter)) sample_world)
             (RunJDLName scenario_env)"
    by (simp add: RemoteFileExists_def scenario_facts listing_def log_def sample_world_def)
  have p: "fIsValid scenario_submitter \<and> gGrid sample_world
      \<and> RemoteFileExists scenario_env (log (GridCd (fRemoteDir scenario_submitter)) sample_world)
            (RunJDLName scenario_env)
      \<and> fScalers scenario_submitter = Some sample_scalers \<and> GetRunList sample_scalers \<noteq> []"
    using g f by (simp add: scenario_facts)
  have r: "0 < fMaxEventsPerChunk scenario_submitter
      \<and> (\<forall>run \<in> set (GetRunList sample_scalers). counted scenario_submitter sample_scalers run \<longrightarrow>
            (\<exists>k. 0 \<le> k \<and> run_events scenario_submitter sample_scalers run = Some (Returns k)))
      \<and> sum_list (map (\<lambda>run. events scenario_submitter sample_scalers run
                + (events scenario_submitter sample_scalers run div fMaxEventsPerChunk scenario_submitter + 1))
            (filter (counted scenario_submitter sample_scalers) (GetRunList sample_scalers))) \<le> Int_t_max"
    by (simp add: scenario_facts scenario_events c v Int_t_max_def)
  have q: "sum_list (map (chunks scenario_submitter sample_scalers)
             (filter (counted scenario_submitter sample_scalers) (GetRunList sample_scalers))) = 5"
    by (simp add: scenario_facts c k)
  have e: "scenario_env\<lparr>Command := Command scenario_env\<rparr> = scenario_env"
    by (simp add: scenario_env_def)
  note T = Submit_job_count [where e = scenario_env and c = "Command scenario_env"
      and s = scenario_submitter and dryRun = False and w = sample_world and sc = sample_scalers
      and n = 0 and w' = sample_world]
  have t: "returned (Submit scenario_env scenario_submitter False sample_world)
             = returned (Submit scenario_env scenario_submitter True sample_world)"
    using T unfolding e by (rule conjunct1)
  have "returned (Submit scenario_env scenario_submitter False sample_world)
          = Returns (sum_list (map (chunks scenario_submitter sample_scalers)
             (filter (counted scenario_submitter sample_scalers) (GetRunList sample_scalers))))"
    using T p r by blast
  then have u: "returned (Submit scenario_env scenario_submitter False sample_world) = Returns 5"
    by (simp only: q)
  show ?thesis using t u by simp
qed

text \<open>
  Claim C10, as stated, sums over the runs for which a trigger-scaler count is available.
  In fixed-count mode the scalers are not asked: for a run without any scaler item
  \<^verbatim>\<open>Submit\<close> still plans 10000 events in 3 chunks and returns 3.
\<close>

theorem Submit_fixed_mode_counterexample:
  "returned (Submit scenario_env fixed_submitter True sample_world) = Returns 3
   \<and> filter (\<lambda>run. GetTriggerScaler no_scalers run ''L2A'' (fReferenceTrigger fixed_submitter) \<noteq> None)
        (GetRunList no_scalers) = []"
proof -
  have m: "fMaxEventsPerChunk fixed_submitter = 5000" "fIsValid fixed_submitter"
    "fScalers fixed_submitter = Some no_scalers" "GetRunList no_scalers = [1000]"
    "fRemoteDir fixed_submitter = ''/alice/sim''"
    by (simp_all add: fixed_submitter_def sample_submitter_def no_scalers_def)
  have r: "run_events fixed_submitter no_scalers 1000 = Some (Returns 10000)"
    by (simp add: run_events_def fixed_submitter_def sample_submitter_def)
  have n: "nChunk_loop 10000 5000 1 = Returns 3"
    by (simp add: nChunk_loop_nonneg Int_t_max_def)
  have h: "Nint (6667 / 2) = Returns 3334"
    using Nint_half [of 3333] by (simp add: Int_t_max_def)
  have i: "Int_t 3 = Returns 3" "Int_t 10002 = Returns 10002"
    by (simp_all add: Int_t_def Int_t_min_def Int_t_max_def)
  have a: "returned (Submit scenario_env fixed_submitter True sample_world) = Returns 3"
    by (simp add: Submit_returned m r n h i RemoteFileExists_def scenario_facts listing_def log_def
          sample_world_def loop_jobs_def Submit_run_def bind_result_def signed_divide_int_def Let_def)
  have b: "filter (\<lambda>run. GetTriggerScaler no_scalers run ''L2A'' (fReferenceTrigger fixed_submitter) \<noteq> None)
        (GetRunList no_scalers) = []"
    by (simp add: no_scalers_def)
  show ?thesis using a b by blast
qed

section \<open>The loop of \<^verbatim>\<open>Merge\<close>\<close>

lemma actions_simps [simp]:
  "actions (log a w) = actions w @ [a]"
  "actions (write_file e p c w) = actions w"
  "actions (Unlink e p w) = actions w"
  "actions (echo_append e l p w) = actions w"
  by (simp_all add: log_def write_file_def Unlink_def echo_append_def)

lemma files_simps [simp]:
  "files (log a w) = files w"
  "files (write_file e p c w) = (files w)(resolve e p \<mapsto> c)"
  "files (Unlink e p w) = (files w)(resolve e p := None)"
  by (simp_all add: log_def write_file_def Unlink_def)



lemma failed_queries_simps [simp]:
  "failed_queries [] = []"
  "failed_queries (GridCd d # as) = failed_queries as"
  "failed_queries (GridMkdir d # as) = failed_queries as"
  "failed_queries (GridRm d # as) = failed_queries as"
  "failed_queries (GridConnect # as) = failed_queries as"
  "failed_queries (FileCp a b # as) = failed_queries as"
  "failed_queries (Exec c # as) = failed_queries as"
  "failed_queries (Stdout l # as) = failed_queries as"
  "failed_queries (GridStdout # as) = failed_queries as"
  "failed_queries (GridStderr # as) = failed_queries as"
  "failed_queries (GridCommand q r # as) = (if job_failed r then q # failed_queries as else failed_queries as)"
  by (simp_all add: failed_queries_def)









lemma read_file_simps [simp]:
  "read_file e (log a w) p = read_file e w p"
  "read_file e (echo_append e l p w) p = read_file e w p @ [l]"
  by (simp_all add: read_file_def echo_append_def log_def write_file_def)








lemma gGrid_simps [simp]:
  "gGrid (log a w) = gGrid w"
  "gGrid (write_file e p c w) = gGrid w"
  "gGrid (Unlink e p w) = gGrid w"
  "gGrid (echo_append e l p w) = gGrid w"
  by (simp_all add: log_def write_file_def Unlink_def echo_append_def)

lemma read_write_file [simp]: "read_file e (write_file e p c w) p = c"
  by (simp add: read_file_def write_file_def)










section \<open>The last stage and the validity of the object\<close>









text \<open>
  Claim C3, amended: on an object that is not valid, copying the template files,
  uploading, making the OCDB snapshots, submitting and \<^verbatim>\<open>Run\<close> return failure (0 jobs for
  \<^verbatim>\<open>Submit\<close>) and leave the world and the object as they were. \<^verbatim>\<open>CleanLocal\<close> returns
  nothing and has no such test: it does to the local files what it does for a valid
  object.
\<close>

theorem invalid_object_gates:
  assumes "\<not> fIsValid s"
  shows "CopyTemplateFilesToLocal e s w = Returns (False, w, s)
       \<and> CopyLocalFilesToRemote e s w = Returns (False, w, s)
       \<and> MakeOCDBSnapshots e s w = (False, w, s)
       \<and> Submit e s dryRun w = Returns (0, w)
       \<and> Run e s mode w = Returns (False, w, s)
       \<and> fst (CleanLocal e s cleanSnapshots w)
           = fst (CleanLocal e (s\<lparr>fIsValid := True\<rparr>) cleanSnapshots w)"
proof -
  have "fst (LocalFileList e (s\<lparr>fIsValid := True\<rparr>)) = fst (LocalFileList e s)"
    by (simp add: LocalFileList_def TemplateFileList_def Let_def split: option.splits)
  then have "fst (CleanLocal e s cleanSnapshots w)
           = fst (CleanLocal e (s\<lparr>fIsValid := True\<rparr>) cleanSnapshots w)"
    by (simp add: CleanLocal_def split_beta)
  then show ?thesis
    using assms
    by (simp add: CopyTemplateFilesToLocal_def CopyLocalFilesToRemote_def MakeOCDBSnapshots_def
          Submit_def Run_def)
qed

theorem invalid_object_gates_witness:
  "Run sample_env invalid_submitter ''full'' sample_world = Returns (False, sample_world, invalid_submitter)
   \<and> Submit sample_env invalid_submitter False sample_world = Returns (0, sample_world)
   \<and> CopyLocalFilesToRemote sample_env invalid_submitter sample_world
        = Returns (False, sample_world, invalid_submitter)"
proof -
  have "\<not> fIsValid invalid_submitter"
    by (simp add: invalid_submitter_def sample_submitter_def)
  from invalid_object_gates [OF this, of sample_env sample_world False "''full''" False]
  show ?thesis by simp
qed

text \<open>
  Claim C3, as stated, fails for cleaning: on an object that is not valid,
  \<^verbatim>\<open>CleanLocal\<close> removes \<^verbatim>\<open>Config.C\<close>.
\<close>

theorem CleanLocal_not_gated_counterexample:
  "\<not> fIsValid invalid_cleaning_submitter
   \<and> files cleaning_world ''Config.C'' = Some [''a'']
   \<and> files (fst (CleanLocal sample_env invalid_cleaning_submitter False cleaning_world)) ''Config.C'' = None"
proof -
  have a: "\<not> fIsValid invalid_cleaning_submitter"
    by (simp add: invalid_cleaning_submitter_def)
  have b: "files cleaning_world ''Config.C'' = Some [''a'']"
    by (simp add: cleaning_world_def)
  have l: "LocalFileList sample_env invalid_cleaning_submitter =
     ([''Config.C'', ''/work/OCDB/1000/OCDB_sim.root'', ''sim.C''], invalid_cleaning_submitter)"
    by (simp add: LocalFileList_def invalid_cleaning_submitter_def cleaning_submitter_def
          sample_submitter_def)
  have c: "files (fst (CleanLocal sample_env invalid_cleaning_submitter False cleaning_world)) ''Config.C'' = None"
  proof -
    have "fst (CleanLocal sample_env invalid_cleaning_submitter False cleaning_world)
            = CleanLocal_loop sample_env False
                [''Config.C'', ''/work/OCDB/1000/OCDB_sim.root'', ''sim.C''] cleaning_world"
      by (simp add: CleanLocal_def l)
    moreover have "resolve sample_env ''Config.C'' = ''Config.C''"
      by (simp add: sample_env_def)
    ultimately show ?thesis by (simp add: CleanLocal_loop_files)
  qed
  show ?thesis using a b c by blast
qed

end
